theory Spec2Isabelle
  imports Main "HOL-Library.AList" "HOL-Library.Sublist"
begin

section \<open>The message relay's HTTP handlers (internal/server/server.go)\<close>

text \<open>
  The server keeps no protocol state of its own: every handler threads the state of the
  storage collaborator, the structured log and the random source through its calls. A
  handler takes the response writer and the world and returns both, updated.
\<close>

subsection \<open>Configuration, collaborators, requests\<close>

text \<open>\<open>time.Duration\<close> and \<open>int64\<close> fields are integers; no handler computes with them.\<close>

record Config =
  Addr :: string
  PlaceholderTTL :: int
  MessageTTL :: int
  ReadTimeout :: int
  ReadHeaderTimeout :: int
  WriteTimeout :: int
  IdleTimeout :: int
  MaxBodyBytes :: int

text \<open>A Go \<open>error\<close> value: \<open>None\<close> is \<open>nil\<close>.\<close>

datatype error = Err string

text \<open>
  The interface \<open>storage.Storage\<close>, over a store state \<open>'s\<close>. Each operation returns its
  Go result tuple and the state it leaves; the context argument is left out.
\<close>

record 's Storage =
  ReserveCode :: "string \<Rightarrow> int \<Rightarrow> 's \<Rightarrow> (bool \<times> error option) \<times> 's"
  AttachCipher :: "string \<Rightarrow> string \<Rightarrow> int \<Rightarrow> 's \<Rightarrow> (bool \<times> error option) \<times> 's"
  GetAndDelete :: "string \<Rightarrow> 's \<Rightarrow> (string \<times> bool \<times> error option) \<times> 's"
  Ping :: "'s \<Rightarrow> error option \<times> 's"

text \<open>The logger's four sinks append an event; \<open>logger = False\<close> is \<open>s.log == nil\<close>.\<close>

datatype Level = Debug | Info | Warn | Error

type_synonym LogEvent = "Level \<times> string \<times> (string \<times> string) list"

record 's Server =
  cfg :: Config
  store :: "'s Storage"
  logger :: bool

text \<open>
  What a handler can change: the store, the log, and how many numbers have been drawn from
  \<open>crypto/rand\<close>.
\<close>

record 's World =
  state :: 's
  logged :: "LogEvent list"
  drawn :: nat

text \<open>
  A request: method, \<open>r.URL.Path\<close>, the bytes of the body, and whether reading the body
  fails in transport before its end.
\<close>

record Request =
  Method :: string
  Path :: string
  Body :: string
  BodyFails :: bool

subsection \<open>The response writer\<close>

text \<open>
  \<open>http.ResponseWriter\<close> as \<open>httptest.ResponseRecorder\<close> implements it: the header map
  stays writable, the first \<open>WriteHeader\<close> fixes the status and takes a snapshot of the
  headers, later calls change nothing, and a \<open>Write\<close> before any \<open>WriteHeader\<close> sends 200.
\<close>

type_synonym Header = "(string \<times> string) list"

record ResponseWriter =
  header :: Header
  wroteHeader :: bool
  code :: nat
  sentHeader :: Header
  written :: string

definition NewRecorder :: ResponseWriter where
  "NewRecorder = \<lparr>header = [], wroteHeader = False, code = 200, sentHeader = [], written = []\<rparr>"

definition Header_Set :: "string \<Rightarrow> string \<Rightarrow> ResponseWriter \<Rightarrow> ResponseWriter" where
  "Header_Set k v w = w\<lparr>header := AList.update k v (header w)\<rparr>"

definition WriteHeader :: "nat \<Rightarrow> ResponseWriter \<Rightarrow> ResponseWriter" where
  "WriteHeader c w =
     (if wroteHeader w then w else w\<lparr>wroteHeader := True, code := c, sentHeader := header w\<rparr>)"

definition Write :: "string \<Rightarrow> ResponseWriter \<Rightarrow> ResponseWriter" where
  "Write b w = (let w' = (if wroteHeader w then w else WriteHeader 200 w)
                in w'\<lparr>written := written w' @ b\<rparr>)"

text \<open>The response a client receives once the handler has returned.\<close>

record Response =
  Status :: nat
  Headers :: Header
  Payload :: string

definition Result :: "ResponseWriter \<Rightarrow> Response" where
  "Result w = \<lparr>Status = code w,
               Headers = (if wroteHeader w then sentHeader w else header w),
               Payload = written w\<rparr>"

subsection \<open>strings.TrimSpace\<close>

text \<open>
  Strings are byte lists. \<open>strings.TrimSpace\<close> removes the leading and trailing runes for
  which \<open>unicode.IsSpace\<close> holds. A well-formed UTF-8 sequence decodes to one rune only, and
  a malformed byte decodes to U+FFFD, which is no space; so a leading (trailing) space is
  exactly a prefix (suffix) that is the encoding of a space.
\<close>

definition asciiSpace :: "char \<Rightarrow> bool" where
  "asciiSpace c \<longleftrightarrow> c = CHR 0x09 \<or> c = CHR 0x0A \<or> c = CHR 0x0B \<or> c = CHR 0x0C
                    \<or> c = CHR 0x0D \<or> c = CHR 0x20"

text \<open>U+0085 and U+00A0.\<close>

definition space2 :: "char \<Rightarrow> char \<Rightarrow> bool" where
  "space2 a b \<longleftrightarrow> a = CHR 0xC2 \<and> (b = CHR 0x85 \<or> b = CHR 0xA0)"

text \<open>U+1680, U+2000 to U+200A, U+2028, U+2029, U+202F, U+205F, U+3000.\<close>

definition space3 :: "char \<Rightarrow> char \<Rightarrow> char \<Rightarrow> bool" where
  "space3 a b c \<longleftrightarrow>
     (a = CHR 0xE1 \<and> b = CHR 0x9A \<and> c = CHR 0x80)
   \<or> (a = CHR 0xE2 \<and> b = CHR 0x80 \<and>
        ((0x80 \<le> (of_char c :: nat) \<and> (of_char c :: nat) \<le> 0x8A)
          \<or> c = CHR 0xA8 \<or> c = CHR 0xA9 \<or> c = CHR 0xAF))
   \<or> (a = CHR 0xE2 \<and> b = CHR 0x81 \<and> c = CHR 0x9F)
   \<or> (a = CHR 0xE3 \<and> b = CHR 0x80 \<and> c = CHR 0x80)"

text \<open>The width in bytes of a space at the front of the string, 0 when there is none.\<close>

definition spaceWidth :: "string \<Rightarrow> nat" where
  "spaceWidth s =
     (case s of
        [] \<Rightarrow> 0
      | a # t \<Rightarrow> if asciiSpace a then 1 else
          (case t of
             [] \<Rightarrow> 0
           | b # u \<Rightarrow> if space2 a b then 2 else
               (case u of [] \<Rightarrow> 0 | c # _ \<Rightarrow> if space3 a b c then 3 else 0)))"

text \<open>The same at the end of the string, given the string reversed.\<close>

definition spaceWidthLast :: "string \<Rightarrow> nat" where
  "spaceWidthLast r =
     (case r of
        [] \<Rightarrow> 0
      | c # t \<Rightarrow> if asciiSpace c then 1 else
          (case t of
             [] \<Rightarrow> 0
           | b # u \<Rightarrow> if space2 b c then 2 else
               (case u of [] \<Rightarrow> 0 | a # _ \<Rightarrow> if space3 a b c then 3 else 0)))"

lemma spaceWidth_le: "spaceWidth s \<le> length s"
  by (simp add: spaceWidth_def split: list.splits)

lemma spaceWidthLast_le: "spaceWidthLast s \<le> length s"
  by (simp add: spaceWidthLast_def split: list.splits)

function TrimLeft :: "string \<Rightarrow> string" where
  "TrimLeft s = (if spaceWidth s = 0 then s else TrimLeft (drop (spaceWidth s) s))"
  by pat_completeness auto
termination
proof (relation "measure length")
  show "wf (measure length)" by simp
next
  fix s :: string
  assume "spaceWidth s \<noteq> 0"
  moreover have "spaceWidth s \<le> length s" by (rule spaceWidth_le)
  ultimately show "(drop (spaceWidth s) s, s) \<in> measure length" by simp
qed

function TrimRightRev :: "string \<Rightarrow> string" where
  "TrimRightRev r = (if spaceWidthLast r = 0 then r else TrimRightRev (drop (spaceWidthLast r) r))"
  by pat_completeness auto
termination
proof (relation "measure length")
  show "wf (measure length)" by simp
next
  fix r :: string
  assume "spaceWidthLast r \<noteq> 0"
  moreover have "spaceWidthLast r \<le> length r" by (rule spaceWidthLast_le)
  ultimately show "(drop (spaceWidthLast r) r, r) \<in> measure length" by simp
qed

definition TrimRight :: "string \<Rightarrow> string" where
  "TrimRight s = rev (TrimRightRev (rev s))"

definition TrimSpace :: "string \<Rightarrow> string" where
  "TrimSpace s = TrimRight (TrimLeft s)"

subsection \<open>Logging and the defensive headers\<close>

definition logEvent :: "'s Server \<Rightarrow> Level \<Rightarrow> string \<Rightarrow> string \<Rightarrow> 's World \<Rightarrow> 's World" where
  "logEvent s lv msg endpoint x =
     (if logger s then x\<lparr>logged := logged x @ [(lv, msg, [(''endpoint'', endpoint)])]\<rparr> else x)"

definition secHeaders :: "ResponseWriter \<Rightarrow> ResponseWriter" where
  "secHeaders w =
     Header_Set ''Pragma'' ''no-cache''
       (Header_Set ''X-Content-Type-Options'' ''nosniff''
         (Header_Set ''Cache-Control'' ''no-store''
           (Header_Set ''Referrer-Policy'' ''no-referrer'' w)))"

subsection \<open>Code generation and the reservation handler\<close>

definition letters :: string where
  "letters = ''ABCDEFGHJKLMNPQRSTUVWXYZabcdefghijkmnopqrstuvwxyz23456789''"

text \<open>
  \<open>rand.Int(rand.Reader, max)\<close> yields a number below \<open>max\<close>. The random source is an
  oracle \<open>rnd\<close>: its \<open>k\<close>-th number, reduced below \<open>max\<close>, is the \<open>k\<close>-th draw.
\<close>

definition rand_Int :: "(nat \<Rightarrow> nat) \<Rightarrow> nat \<Rightarrow> nat \<Rightarrow> nat \<times> nat" where
  "rand_Int rnd m k = (rnd k mod m, Suc k)"

text \<open>The loop of \<open>generateCode\<close>: \<open>n\<close> more bytes after \<open>b\<close>, drawing from position \<open>k\<close>.\<close>

fun generateLoop :: "(nat \<Rightarrow> nat) \<Rightarrow> nat \<Rightarrow> string \<Rightarrow> nat \<Rightarrow> string \<times> nat" where
  "generateLoop rnd 0 b k = (b, k)"
| "generateLoop rnd (Suc n) b k =
     (let (idx, k') = rand_Int rnd (length letters) k
      in generateLoop rnd n (b @ [letters ! idx]) k')"

definition generateCode :: "(nat \<Rightarrow> nat) \<Rightarrow> int \<Rightarrow> nat \<Rightarrow> string \<times> nat" where
  "generateCode rnd n k = generateLoop rnd (nat n) [] k"

text \<open>
  \<open>json.NewEncoder(w).Encode(map[string]string{"code": code})\<close>: the object on one line and
  a newline. A code holds characters of \<open>letters\<close> only, and the encoder escapes none of them.
\<close>

definition encodeCode :: "string \<Rightarrow> string" where
  "encodeCode c = [CHR ''{'', CHR 0x22] @ ''code'' @ [CHR 0x22, CHR '':'', CHR 0x22] @ c
                    @ [CHR 0x22, CHR ''}'', CHR 0x0A]"

text \<open>
  The \<open>for\<close> loop of \<open>getCode\<close>. It ends by \<open>return\<close> after writing 500 (\<open>Inl\<close>, the writer)
  or by \<open>break\<close> (\<open>Inr\<close>, the reserved code); while the store reports collisions it goes on,
  and when it never ends the value is \<open>None\<close>.
\<close>

partial_function (option) reserveLoop ::
  "(nat \<Rightarrow> nat) \<Rightarrow> 's Server \<Rightarrow> ResponseWriter \<Rightarrow> 's World
     \<Rightarrow> ((ResponseWriter + string) \<times> 's World) option" where
  "reserveLoop rnd s w x =
     (let (c, k) = generateCode rnd 8 (drawn x);
          ((ok, err), st) = ReserveCode (store s) c (PlaceholderTTL (cfg s)) (state x);
          x' = x\<lparr>state := st, drawn := k\<rparr>
      in if err \<noteq> None then
           Some (Inl (WriteHeader 500 w), logEvent s Error ''reserve_code_error'' ''code'' x')
         else if ok then Some (Inr c, x')
         else reserveLoop rnd s w x')"

declare reserveLoop.simps [code]

definition getCode ::
  "(nat \<Rightarrow> nat) \<Rightarrow> 's Server \<Rightarrow> ResponseWriter \<Rightarrow> Request \<Rightarrow> 's World
     \<Rightarrow> (ResponseWriter \<times> 's World) option" where
  "getCode rnd s w r x =
     (if Method r \<noteq> ''GET'' then Some (WriteHeader 405 w, x)
      else
        (case reserveLoop rnd s (secHeaders w) x of
           None \<Rightarrow> None
         | Some (Inl w', x') \<Rightarrow> Some (w', x')
         | Some (Inr c, x') \<Rightarrow>
             Some (Write (encodeCode c)
                     (Header_Set ''Content-Type'' ''application/json'' (secHeaders w)), x')))"

subsection \<open>Attachment and retrieval\<close>

definition TrimPrefix :: "string \<Rightarrow> string \<Rightarrow> string" where
  "TrimPrefix s p = (if prefix p s then drop (length p) s else s)"

text \<open>
  \<open>io.ReadAll\<close> on \<open>http.MaxBytesReader(w, r.Body, max)\<close>: an error when the transport
  fails or the body is longer than \<open>max\<close> bytes, the whole body otherwise.
\<close>

definition readBody :: "Request \<Rightarrow> int \<Rightarrow> error + string" where
  "readBody r m =
     (if BodyFails r then Inl (Err ''unexpected EOF'')
      else if int (length (Body r)) > m then Inl (Err ''http: request body too large'')
      else Inr (Body r))"

text \<open>The local \<open>max\<close> of \<open>putMessage\<close>: the configured cap, 1 MiB when it is not positive.\<close>

definition bodyLimit :: "Config \<Rightarrow> int" where
  "bodyLimit c = (if MaxBodyBytes c \<le> 0 then 1048576 else MaxBodyBytes c)"

definition putMessage ::
  "'s Server \<Rightarrow> ResponseWriter \<Rightarrow> Request \<Rightarrow> 's World \<Rightarrow> ResponseWriter \<times> 's World" where
  "putMessage s w0 r x =
     (let w = secHeaders w0;
          c = TrimPrefix (Path r) ''/message/'';
          m = bodyLimit (cfg s)
      in case readBody r m of
           Inl e \<Rightarrow> (WriteHeader 400 w, logEvent s Warn ''body_read_error'' ''message_put'' x)
         | Inr body \<Rightarrow>
             (let ct = TrimSpace body
              in if ct = [] then
                   (WriteHeader 400 w, logEvent s Warn ''empty_body'' ''message_put'' x)
                 else
                   (let ((ok, err), st) = AttachCipher (store s) c ct (MessageTTL (cfg s)) (state x);
                        x' = x\<lparr>state := st\<rparr>
                    in if err \<noteq> None then
                         (WriteHeader 500 w,
                          logEvent s Error ''attach_cipher_error'' ''message_put'' x')
                       else if \<not> ok then
                         (WriteHeader 409 w, logEvent s Warn ''attach_conflict'' ''message_put'' x')
                       else (WriteHeader 204 w, x'))))"

definition getMessage ::
  "'s Server \<Rightarrow> ResponseWriter \<Rightarrow> Request \<Rightarrow> 's World \<Rightarrow> ResponseWriter \<times> 's World" where
  "getMessage s w0 r x =
     (let w = secHeaders w0;
          c = TrimPrefix (Path r) ''/message/'';
          ((ct, ok, err), st) = GetAndDelete (store s) c (state x);
          x' = x\<lparr>state := st\<rparr>
      in if err \<noteq> None then
           (WriteHeader 500 w, logEvent s Error ''get_delete_error'' ''message_get'' x')
         else if \<not> ok then (WriteHeader 404 w, x')
         else (Write ct (Header_Set ''Content-Type'' ''text/plain'' w), x'))"

definition message ::
  "'s Server \<Rightarrow> ResponseWriter \<Rightarrow> Request \<Rightarrow> 's World \<Rightarrow> ResponseWriter \<times> 's World" where
  "message s w r x =
     (if \<not> prefix ''/message/'' (Path r) then (WriteHeader 404 w, x)
      else if Method r = ''PUT'' then putMessage s w r x
      else if Method r = ''GET'' then getMessage s w r x
      else (WriteHeader 405 w, x))"

definition base64Char :: "char \<Rightarrow> bool" where
  "base64Char c \<longleftrightarrow>
     (0x41 \<le> (of_char c :: nat) \<and> (of_char c :: nat) \<le> 0x5A)
   \<or> (0x61 \<le> (of_char c :: nat) \<and> (of_char c :: nat) \<le> 0x7A)
   \<or> (0x30 \<le> (of_char c :: nat) \<and> (of_char c :: nat) \<le> 0x39)
   \<or> c = CHR ''+'' \<or> c = CHR ''/'' \<or> c = CHR ''=''"

definition validBase64 :: "string \<Rightarrow> bool" where
  "validBase64 s \<longleftrightarrow> (if length s = 0 then False else list_all base64Char s)"

subsection \<open>Routing\<close>

definition health :: "ResponseWriter \<Rightarrow> ResponseWriter" where
  "health w = WriteHeader 200 (secHeaders w)"

definition New :: "Config \<Rightarrow> 's Storage \<Rightarrow> bool \<Rightarrow> 's Server" where
  "New c st lg = \<lparr>cfg = c, store = st, logger = lg\<rparr>"

text \<open>
  \<open>New\<close> registers three patterns with \<open>http.NewServeMux\<close>: the exact paths \<open>/code\<close>
  and \<open>/health\<close> and the subtree \<open>/message/\<close>. The multiplexer of \<open>net/http\<close> runs the
  handler of the pattern that matches, and answers by itself, running no handler, in three
  cases: a request for \<open>*\<close> (400), a path that is not in clean form or that becomes the
  root of a registered subtree when a slash is added (301), and a path that matches no
  pattern (404). The multiplexer reads the escaped path of the URL; the requests modelled
  are those whose target is written in the default encoding, for which the escaped path
  is clean and matches exactly when \<open>r.URL.Path\<close> does.
\<close>

text \<open>The parts of a string between its slashes.\<close>

fun splitSlash :: "string \<Rightarrow> string list" where
  "splitSlash [] = [[]]"
| "splitSlash (c # cs) =
     (if c = CHR ''/'' then [] # splitSlash cs
      else (c # hd (splitSlash cs)) # tl (splitSlash cs))"

fun joinSlash :: "string list \<Rightarrow> string" where
  "joinSlash [] = []"
| "joinSlash [g] = g"
| "joinSlash (g # h # gs) = g @ ''/'' @ joinSlash (h # gs)"

text \<open>
  \<open>path.Clean\<close> on a rooted path, element by element: empty elements and \<open>.\<close> are
  dropped, \<open>..\<close> removes the element before it and is dropped at the root. The elements
  kept so far are held in reverse.
\<close>

fun cleanElems :: "string list \<Rightarrow> string list \<Rightarrow> string list" where
  "cleanElems kept [] = rev kept"
| "cleanElems kept (g # gs) =
     (if g = [] \<or> g = ''.'' then cleanElems kept gs
      else if g = ''..'' then cleanElems (tl kept) gs
      else cleanElems (g # kept) gs)"

definition pathClean :: "string \<Rightarrow> string" where
  "pathClean p = ''/'' @ joinSlash (cleanElems [] (splitSlash p))"

text \<open>\<open>cleanPath\<close> of \<open>net/http\<close>: the path rooted and cleaned, a trailing slash kept.\<close>

definition cleanPath :: "string \<Rightarrow> string" where
  "cleanPath p =
     (if p = [] then ''/''
      else
        (let q = (if hd p \<noteq> CHR ''/'' then CHR ''/'' # p else p);
             np = pathClean q
         in if last q = CHR ''/'' \<and> np \<noteq> ''/'' then np @ ''/'' else np))"

datatype Route = CodeRoute | MessageRoute | HealthRoute

text \<open>The pattern that matches a path, if any.\<close>

definition matchPattern :: "string \<Rightarrow> Route option" where
  "matchPattern p =
     (if p = ''/code'' then Some CodeRoute
      else if p = ''/health'' then Some HealthRoute
      else if prefix ''/message/'' p then Some MessageRoute
      else None)"

text \<open>
  \<open>exactMatch\<close>: a match of an exact pattern, or a match of the subtree pattern by the
  root of the subtree (the path ends in a slash and has the two slashes of the pattern).
\<close>

fun exactMatch :: "Route option \<Rightarrow> string \<Rightarrow> bool" where
  "exactMatch None p = False"
| "exactMatch (Some CodeRoute) p = True"
| "exactMatch (Some HealthRoute) p = True"
| "exactMatch (Some MessageRoute) p =
     (p \<noteq> [] \<and> last p = CHR ''/'' \<and> count_list p (CHR ''/'') = 2)"

text \<open>What the multiplexer answers by itself.\<close>

datatype MuxReply = MovedPermanently string | NotFound | BadRequest

text \<open>
  \<open>ServeMux.findHandler\<close>, after the test for \<open>*\<close> of \<open>ServeMux.ServeHTTP\<close>. The path
  of a \<open>CONNECT\<close> request is not cleaned. \<open>MovedPermanently\<close> holds the path of the URL
  redirected to.
\<close>

definition findHandler :: "Request \<Rightarrow> Route + MuxReply" where
  "findHandler r =
     (if Path r = ''*'' then Inr BadRequest
      else
        (let connect = (Method r = ''CONNECT'');
             p = (if connect then Path r else cleanPath (Path r))
         in if \<not> exactMatch (matchPattern p) p \<and> \<not> (p \<noteq> [] \<and> last p = CHR ''/'')
               \<and> exactMatch (matchPattern (p @ ''/'')) (p @ ''/'')
            then Inr (MovedPermanently (cleanPath (Path r) @ ''/''))
            else if \<not> connect \<and> p \<noteq> Path r then Inr (MovedPermanently p)
            else (case matchPattern p of None \<Rightarrow> Inr NotFound | Some h \<Rightarrow> Inl h)))"

text \<open>
  \<open>s.Handler().ServeHTTP\<close> on a fresh recorder, as the tests call it: the response of
  the handler run, or the reply of the multiplexer.
\<close>

datatype Reply = Handled Response | Mux MuxReply

definition ServeHTTP ::
  "(nat \<Rightarrow> nat) \<Rightarrow> 's Server \<Rightarrow> Request \<Rightarrow> 's World \<Rightarrow> (Reply \<times> 's World) option" where
  "ServeHTTP rnd s r x =
     (case findHandler r of
        Inr m \<Rightarrow> Some (Mux m, x)
      | Inl CodeRoute \<Rightarrow>
          (case getCode rnd s NewRecorder r x of
             None \<Rightarrow> None
           | Some (w, x') \<Rightarrow> Some (Handled (Result w), x'))
      | Inl MessageRoute \<Rightarrow>
          (case message s NewRecorder r x of (w, x') \<Rightarrow> Some (Handled (Result w), x'))
      | Inl HealthRoute \<Rightarrow> Some (Handled (Result (health NewRecorder)), x))"

subsection \<open>The test double of server\_test.go\<close>

text \<open>\<open>mockStore\<close> answers every call from its fields and never changes.\<close>

record mockStore =
  reserveOK :: bool
  attachOK :: bool
  attachErr :: "error option"
  getVal :: string
  getOK :: bool
  getErr :: "error option"
  pingErr :: "error option"

definition mockStorage :: "mockStore Storage" where
  "mockStorage =
     \<lparr>ReserveCode = (\<lambda>c ttl m. ((reserveOK m, None), m)),
      AttachCipher = (\<lambda>c ct ttl m. ((attachOK m, attachErr m), m)),
      GetAndDelete = (\<lambda>c m. ((getVal m, getOK m, getErr m), m)),
      Ping = (\<lambda>m. (pingErr m, m))\<rparr>"

definition mock :: mockStore where
  "mock = \<lparr>reserveOK = False, attachOK = False, attachErr = None, getVal = [],
           getOK = False, getErr = None, pingErr = None\<rparr>"

definition testConfig :: Config where
  "testConfig = \<lparr>Addr = '':0'', PlaceholderTTL = 60000000000, MessageTTL = 3600000000000,
                 ReadTimeout = 0, ReadHeaderTimeout = 0, WriteTimeout = 0, IdleTimeout = 0,
                 MaxBodyBytes = 0\<rparr>"

definition newTestServer :: "mockStore Server" where
  "newTestServer = New testConfig mockStorage True"

definition world :: "'s \<Rightarrow> 's World" where
  "world st = \<lparr>state = st, logged = [], drawn = 0\<rparr>"

text \<open>\<open>httptest.NewRequest(method, target, body)\<close>, for a target that is a path.\<close>

definition NewRequest :: "string \<Rightarrow> string \<Rightarrow> string \<Rightarrow> Request" where
  "NewRequest m p b = \<lparr>Method = m, Path = p, Body = b, BodyFails = False\<rparr>"

lemmas TrimSpace_eval =
  TrimSpace_def TrimRight_def spaceWidth_def spaceWidthLast_def asciiSpace_def space2_def
  space3_def

lemmas mock_eval =
  newTestServer_def New_def testConfig_def mockStorage_def mock_def world_def NewRequest_def

subsection \<open>An in-memory store\<close>

text \<open>
  Modelled from the spec: the package \<open>internal/storage\<close>, whose stores implement
  \<open>storage.Storage\<close>, is not among the sources. This store follows the storage contract
  of the specification (section 4.2) and its data model (section 3): a record is a
  placeholder or holds a payload, and is gone once its time to live has elapsed.
\<close>

datatype Entry = Placeholder int | Attached string int

fun expiry :: "Entry \<Rightarrow> int" where
  "expiry (Placeholder t) = t"
| "expiry (Attached p t) = t"

record MemState =
  clock :: int
  recs :: "string \<Rightarrow> Entry option"

text \<open>Modelled from the spec: the live record of a code; expiry is lazy.\<close>

definition lookup :: "MemState \<Rightarrow> string \<Rightarrow> Entry option" where
  "lookup m c =
     (case recs m c of
        None \<Rightarrow> None
      | Some e \<Rightarrow> if clock m < expiry e then Some e else None)"

text \<open>
  Modelled from the spec: \<open>reserve_code\<close> creates a placeholder iff no record exists and
  returns false on a collision.
\<close>

definition memReserveCode :: "string \<Rightarrow> int \<Rightarrow> MemState \<Rightarrow> (bool \<times> error option) \<times> MemState" where
  "memReserveCode c ttl m =
     (case lookup m c of
        Some e \<Rightarrow> ((False, None), m)
      | None \<Rightarrow> ((True, None), m\<lparr>recs := (recs m)(c \<mapsto> Placeholder (clock m + ttl))\<rparr>))"

text \<open>
  Modelled from the spec: \<open>attach_cipher\<close> turns a placeholder into an attached record
  with a new time to live, and returns false without mutating when the code is unknown
  or already attached.
\<close>

definition memAttachCipher ::
  "string \<Rightarrow> string \<Rightarrow> int \<Rightarrow> MemState \<Rightarrow> (bool \<times> error option) \<times> MemState" where
  "memAttachCipher c p ttl m =
     (case lookup m c of
        Some (Placeholder t) \<Rightarrow>
          ((True, None), m\<lparr>recs := (recs m)(c \<mapsto> Attached p (clock m + ttl))\<rparr>)
      | Some (Attached q t) \<Rightarrow> ((False, None), m)
      | None \<Rightarrow> ((False, None), m))"

text \<open>
  Modelled from the spec: \<open>get_and_delete\<close> reads and removes the attached record;
  found is false when the record is absent or still a placeholder.
\<close>

definition memGetAndDelete ::
  "string \<Rightarrow> MemState \<Rightarrow> (string \<times> bool \<times> error option) \<times> MemState" where
  "memGetAndDelete c m =
     (case lookup m c of
        Some (Attached p t) \<Rightarrow> ((p, True, None), m\<lparr>recs := (recs m)(c := None)\<rparr>)
      | Some (Placeholder t) \<Rightarrow> (([], False, None), m)
      | None \<Rightarrow> (([], False, None), m))"

text \<open>
  Modelled from the spec: the four operations as one store; \<open>ping\<close> has no effect, and
  a store in memory has no failure to report.
\<close>

definition memStorage :: "MemState Storage" where
  "memStorage =
     \<lparr>ReserveCode = memReserveCode, AttachCipher = memAttachCipher,
      GetAndDelete = memGetAndDelete, Ping = (\<lambda>m. (None, m))\<rparr>"

text \<open>
  Modelled from the spec: what happens to a server on this store. It serves a request, or
  time passes and brings records nearer to their expiry. A run returns the requests
  served with their responses, in order, and the world it ends in; it has no value when
  one of its requests is never answered.
\<close>

datatype Step = Serve Request | Elapse nat

definition elapse :: "nat \<Rightarrow> MemState World \<Rightarrow> MemState World" where
  "elapse d x = x\<lparr>state := (state x)\<lparr>clock := clock (state x) + int d\<rparr>\<rparr>"

fun run ::
  "(nat \<Rightarrow> nat) \<Rightarrow> MemState Server \<Rightarrow> Step list \<Rightarrow> MemState World
     \<Rightarrow> ((Request \<times> Reply) list \<times> MemState World) option"
  where
  "run rnd s [] x = Some ([], x)"
| "run rnd s (Serve q # es) x =
     (case ServeHTTP rnd s q x of
        None \<Rightarrow> None
      | Some (resp, x') \<Rightarrow>
          (case run rnd s es x' of
             None \<Rightarrow> None
           | Some (tr, y) \<Rightarrow> Some ((q, resp) # tr, y)))"
| "run rnd s (Elapse d # es) x = run rnd s es (elapse d x)"

text \<open>An exchange in which the reservation endpoint hands out the code \<open>c\<close>.\<close>

definition issues :: "string \<Rightarrow> Request \<times> Reply \<Rightarrow> bool" where
  "issues c e \<longleftrightarrow>
     Path (fst e) = ''/code'' \<and>
     (case snd e of Handled resp \<Rightarrow> Payload resp = encodeCode c | Mux m \<Rightarrow> False)"

definition memServer :: "MemState Server" where
  "memServer = New testConfig memStorage True"

text \<open>A store at time 0 holding the given records.\<close>

definition memState :: "(string \<times> Entry) list \<Rightarrow> MemState" where
  "memState al = \<lparr>clock = 0, recs = map_of al\<rparr>"

lemmas mem_eval =
  memServer_def New_def testConfig_def memStorage_def memState_def world_def NewRequest_def
  memReserveCode_def memAttachCipher_def memGetAndDelete_def lookup_def elapse_def

section \<open>Facts about the response writer and the routing\<close>

lemma Result_status_sec:
  "Result (WriteHeader c (secHeaders NewRecorder)) =
     \<lparr>Status = c,
      Headers = [(''Referrer-Policy'', ''no-referrer''), (''Cache-Control'', ''no-store''),
                 (''X-Content-Type-Options'', ''nosniff''), (''Pragma'', ''no-cache'')],
      Payload = []\<rparr>"
  by (simp add: Result_def WriteHeader_def secHeaders_def Header_Set_def NewRecorder_def)

lemma Result_text_sec:
  "Result (Write ct (Header_Set ''Content-Type'' ''text/plain'' (secHeaders NewRecorder))) =
     \<lparr>Status = 200,
      Headers = [(''Referrer-Policy'', ''no-referrer''), (''Cache-Control'', ''no-store''),
                 (''X-Content-Type-Options'', ''nosniff''), (''Pragma'', ''no-cache''),
                 (''Content-Type'', ''text/plain'')],
      Payload = ct\<rparr>"
  by (simp add: Result_def Write_def WriteHeader_def secHeaders_def Header_Set_def NewRecorder_def)

lemma Result_json_sec:
  "Result (Write b (Header_Set ''Content-Type'' ''application/json'' (secHeaders NewRecorder))) =
     \<lparr>Status = 200,
      Headers = [(''Referrer-Policy'', ''no-referrer''), (''Cache-Control'', ''no-store''),
                 (''X-Content-Type-Options'', ''nosniff''), (''Pragma'', ''no-cache''),
                 (''Content-Type'', ''application/json'')],
      Payload = b\<rparr>"
  by (simp add: Result_def Write_def WriteHeader_def secHeaders_def Header_Set_def NewRecorder_def)

lemma Result_status_bare:
  "Result (WriteHeader c NewRecorder) = \<lparr>Status = c, Headers = [], Payload = []\<rparr>"
  by (simp add: Result_def WriteHeader_def NewRecorder_def)

lemmas Result_simps = Result_status_sec Result_text_sec Result_json_sec Result_status_bare

lemma count_slash_message:
  assumes "prefix ''/message/'' p"
  shows "2 \<le> count_list p (CHR ''/'')"
proof -
  from assms obtain t where "p = ''/message/'' @ t"
    by (auto simp: prefix_def)
  then show ?thesis by simp
qed

lemma message_no_slash_redirect:
  assumes "prefix ''/message/'' p"
  shows "\<not> (\<not> exactMatch (matchPattern p) p \<and> \<not> (p \<noteq> [] \<and> last p = CHR ''/'')
            \<and> exactMatch (matchPattern (p @ ''/'')) (p @ ''/''))"
proof -
  from assms have "prefix ''/message/'' (p @ ''/'')"
    by simp
  moreover from assms have "p @ ''/'' \<noteq> ''/code''" and "p @ ''/'' \<noteq> ''/health''"
    by (auto simp: prefix_def)
  ultimately have "matchPattern (p @ ''/'') = Some MessageRoute"
    by (simp add: matchPattern_def)
  moreover have "count_list (p @ ''/'') (CHR ''/'') \<noteq> 2"
    using count_slash_message [OF assms] by simp
  ultimately show ?thesis by simp
qed

lemma matchPattern_message:
  "prefix ''/message/'' p \<Longrightarrow> matchPattern p = Some MessageRoute"
  by (auto simp: matchPattern_def)

lemma findHandler_message:
  assumes "prefix ''/message/'' (Path r)" and "cleanPath (Path r) = Path r"
  shows "findHandler r = Inl MessageRoute"
proof -
  from assms(1) have "Path r \<noteq> ''*''" by auto
  with assms message_no_slash_redirect [OF assms(1)] matchPattern_message [OF assms(1)]
  show ?thesis
    by (auto simp: findHandler_def Let_def)
qed

lemma cleanPath_code: "cleanPath ''/code'' = ''/code''"
  by (simp add: cleanPath_def pathClean_def)

lemma findHandler_code:
  assumes "Path r = ''/code''"
  shows "findHandler r = Inl CodeRoute"
  using assms by (auto simp: findHandler_def Let_def cleanPath_code matchPattern_def)

lemma ServeHTTP_message:
  assumes "prefix ''/message/'' (Path r)" and "cleanPath (Path r) = Path r"
  shows "ServeHTTP rnd s r x =
           Some (Handled (Result (fst (message s NewRecorder r x))),
                 snd (message s NewRecorder r x))"
  by (simp add: ServeHTTP_def findHandler_message [OF assms] split: prod.splits)

lemma ServeHTTP_mux:
  assumes "findHandler r = Inr m"
  shows "ServeHTTP rnd s r x = Some (Mux m, x)"
  by (simp add: ServeHTTP_def assms)

lemma logEvent_state [simp]: "state (logEvent s lv m e x) = state x"
  by (simp add: logEvent_def)

lemma logEvent_drawn [simp]: "drawn (logEvent s lv m e x) = drawn x"
  by (simp add: logEvent_def)

text \<open>What \<open>getMessage\<close> answers depends on the world through the store only.\<close>

lemma getMessage_response:
  assumes "state y = state x"
  shows "fst (getMessage s w g y) = fst (getMessage s w g x)"
  using assms by (simp add: getMessage_def Let_def split: prod.splits)

text \<open>The two message handlers, as served: one storage call each, which fixes the response.\<close>

lemma serve_put:
  assumes "Method r = ''PUT''" and "prefix ''/message/'' (Path r)"
    and "cleanPath (Path r) = Path r"
    and "readBody r (bodyLimit (cfg s)) = Inr body" and "TrimSpace body \<noteq> []"
    and "AttachCipher (store s) (TrimPrefix (Path r) ''/message/'') (TrimSpace body)
           (MessageTTL (cfg s)) (state x) = ((ok, err), st)"
  shows "\<exists>resp x'. ServeHTTP rnd s r x = Some (Handled resp, x') \<and> state x' = st \<and> Payload resp = []
           \<and> Status resp = (if err \<noteq> None then 500 else if ok then 204 else 409)
           \<and> drawn x' = drawn x"
  using assms
  by (simp add: ServeHTTP_message message_def putMessage_def Let_def Result_simps)

lemma serve_get:
  assumes "Method r = ''GET''" and "prefix ''/message/'' (Path r)"
    and "cleanPath (Path r) = Path r"
    and "GetAndDelete (store s) (TrimPrefix (Path r) ''/message/'') (state x) = ((ct, ok, err), st)"
  shows "\<exists>resp x'. ServeHTTP rnd s r x = Some (Handled resp, x') \<and> state x' = st
           \<and> Status resp = (if err \<noteq> None then 500 else if ok then 200 else 404)
           \<and> Payload resp = (if err = None \<and> ok then ct else [])
           \<and> map_of (Headers resp) ''Content-Type''
                = (if err = None \<and> ok then Some ''text/plain'' else None)
           \<and> drawn x' = drawn x"
  using assms
  by (simp add: ServeHTTP_message message_def getMessage_def Let_def Result_simps)

section \<open>Attachment\<close>

lemma cleanPath_xyz: "cleanPath ''/message/xyz'' = ''/message/xyz''"
  by (simp add: cleanPath_def pathClean_def)

text \<open>
  Claim C5. A \<open>PUT\<close> on \<open>/message/{code}\<close>, the path in clean form so that the
  multiplexer runs the handler, whose body is empty once its white space is trimmed is
  answered 400 with no body, whatever the store holds and whether or not the body could
  be read at all. No storage operation runs: the store state and the random source are
  as before, so every later \<open>GET\<close> on a message path gets the response it would have got
  without the \<open>PUT\<close>; one that was 404 is still 404.
\<close>

theorem put_empty_body_400:
  assumes "Method r = ''PUT''" and "prefix ''/message/'' (Path r)"
    and "cleanPath (Path r) = Path r" and "TrimSpace (Body r) = []"
  shows "\<exists>resp x'. ServeHTTP rnd s r x = Some (Handled resp, x') \<and> Status resp = 400
           \<and> Payload resp = [] \<and> state x' = state x \<and> drawn x' = drawn x
           \<and> (\<forall>g a y. Method g = ''GET'' \<and> prefix ''/message/'' (Path g)
                  \<and> cleanPath (Path g) = Path g
                  \<and> ServeHTTP rnd s g x = Some (a, y)
                \<longrightarrow> (\<exists>y'. ServeHTTP rnd s g x' = Some (a, y')))"
proof -
  obtain w x' where put: "message s NewRecorder r x = (w, x')"
    by force
  from assms put have w: "Result w = \<lparr>Status = 400, Headers = Headers (Result w), Payload = []\<rparr>"
    and st: "state x' = state x" and dr: "drawn x' = drawn x"
    by (auto simp: message_def putMessage_def readBody_def Let_def Result_simps
             split: sum.splits if_splits)
  have later: "\<exists>y'. ServeHTTP rnd s g x' = Some (a, y')"
    if "prefix ''/message/'' (Path g)" and "cleanPath (Path g) = Path g"
      and "Method g = ''GET''" and "ServeHTTP rnd s g x = Some (a, y)" for g a y
    using that getMessage_response [OF st, of s NewRecorder g]
    by (simp add: ServeHTTP_message message_def)
  from w have "Status (Result w) = 400" and "Payload (Result w) = []"
    by (metis Response.select_convs(1), metis Response.select_convs(3))
  moreover have "ServeHTTP rnd s r x = Some (Handled (Result w), x')"
    using assms(2,3) put by (simp add: ServeHTTP_message)
  ultimately show ?thesis
    using st dr later by blast
qed

theorem put_empty_body_400_witness:
  "Method (NewRequest ''PUT'' ''/message/xyz'' [CHR 0x20, CHR 0x09, CHR 0x0A]) = ''PUT''
   \<and> prefix ''/message/'' (Path (NewRequest ''PUT'' ''/message/xyz'' [CHR 0x20, CHR 0x09, CHR 0x0A]))
   \<and> cleanPath (Path (NewRequest ''PUT'' ''/message/xyz'' [CHR 0x20, CHR 0x09, CHR 0x0A]))
       = Path (NewRequest ''PUT'' ''/message/xyz'' [CHR 0x20, CHR 0x09, CHR 0x0A])
   \<and> TrimSpace (Body (NewRequest ''PUT'' ''/message/xyz'' [CHR 0x20, CHR 0x09, CHR 0x0A])) = []
   \<and> (\<exists>resp x'. ServeHTTP (\<lambda>k. k) newTestServer
                    (NewRequest ''PUT'' ''/message/xyz'' [CHR 0x20, CHR 0x09, CHR 0x0A])
                    (world (mock\<lparr>attachOK := True\<rparr>)) = Some (Handled resp, x')
         \<and> Status resp = 400 \<and> Payload resp = []
         \<and> state x' = state (world (mock\<lparr>attachOK := True\<rparr>))
         \<and> drawn x' = drawn (world (mock\<lparr>attachOK := True\<rparr>))
         \<and> (\<forall>g a y. Method g = ''GET'' \<and> prefix ''/message/'' (Path g)
                \<and> cleanPath (Path g) = Path g
                \<and> ServeHTTP (\<lambda>k. k) newTestServer g (world (mock\<lparr>attachOK := True\<rparr>))
                    = Some (a, y)
              \<longrightarrow> (\<exists>y'. ServeHTTP (\<lambda>k. k) newTestServer g x' = Some (a, y'))))"
proof -
  let ?r = "NewRequest ''PUT'' ''/message/xyz'' [CHR 0x20, CHR 0x09, CHR 0x0A]"
  have h1: "Method ?r = ''PUT''" and h2: "prefix ''/message/'' (Path ?r)"
    and h3: "cleanPath (Path ?r) = Path ?r"
    by (simp_all add: NewRequest_def cleanPath_xyz)
  have h4: "TrimSpace (Body ?r) = []"
    by (simp add: NewRequest_def TrimSpace_eval)
  show ?thesis
    by (intro conjI h1 h2 h3 h4 put_empty_body_400 [OF h1 h2 h3 h4])
qed

lemma memAttach_conflict:
  "fst (memAttachCipher c p ttl m) = (False, None) \<Longrightarrow> snd (memAttachCipher c p ttl m) = m"
  by (simp add: memAttachCipher_def split: option.splits Entry.splits)

text \<open>
  Claim C6. For a \<open>PUT\<close> on \<open>/message/{code}\<close>, the path in clean form, whose body can
  be read and is not empty once trimmed, the result of the one \<open>AttachCipher\<close> call fixes
  the response: an error gives 500, success without error gives 204, a conflict (false, no
  error) gives 409; the three statuses differ, so the status tells the result back. The
  body of the response is empty each time, and the store is left exactly as \<open>AttachCipher\<close>
  left it. Where the store keeps the contract of \<open>attach_cipher\<close>, that a conflict mutates
  nothing, the store after a 409 is the store before the request.
\<close>

theorem put_outcome_by_attach:
  fixes s :: "'s Server"
  assumes "Method r = ''PUT''" and "prefix ''/message/'' (Path r)"
    and "cleanPath (Path r) = Path r"
    and "readBody r (bodyLimit (cfg s)) = Inr body" and "TrimSpace body \<noteq> []"
    and "AttachCipher (store s) (TrimPrefix (Path r) ''/message/'') (TrimSpace body)
           (MessageTTL (cfg s)) (state x) = ((ok, err), st)"
  shows "\<exists>resp x'. ServeHTTP rnd s r x = Some (Handled resp, x') \<and> state x' = st \<and> Payload resp = []
           \<and> Status resp = (if err \<noteq> None then 500 else if ok then 204 else 409)
           \<and> ((\<forall>c p ttl (m :: 's). fst (AttachCipher (store s) c p ttl m) = (False, None)
                   \<longrightarrow> snd (AttachCipher (store s) c p ttl m) = m)
                \<and> Status resp = 409 \<longrightarrow> state x' = state x)"
proof -
  from serve_put [OF assms, of rnd] obtain resp x' where
    served: "ServeHTTP rnd s r x = Some (Handled resp, x')" and st: "state x' = st"
    and body: "Payload resp = []"
    and status: "Status resp = (if err \<noteq> None then 500 else if ok then 204 else 409)"
    by blast
  have "state x' = state x"
    if contract: "\<forall>c p ttl (m :: 's). fst (AttachCipher (store s) c p ttl m) = (False, None)
                   \<longrightarrow> snd (AttachCipher (store s) c p ttl m) = m"
      and conflict: "Status resp = 409"
  proof -
    from conflict status have "(ok, err) = (False, None)"
      by (auto split: if_splits)
    with assms(6) have "fst (AttachCipher (store s) (TrimPrefix (Path r) ''/message/'')
                          (TrimSpace body) (MessageTTL (cfg s)) (state x)) = (False, None)"
      by simp
    with contract have "snd (AttachCipher (store s) (TrimPrefix (Path r) ''/message/'')
                          (TrimSpace body) (MessageTTL (cfg s)) (state x)) = state x"
      by blast
    with assms(6) st show ?thesis by simp
  qed
  with served st body status show ?thesis
    by blast
qed

theorem put_outcome_by_attach_witness:
  "\<exists>resp x'. ServeHTTP (\<lambda>k. k) memServer (NewRequest ''PUT'' ''/message/xyz'' ''AAAAAAAAAAAAAAAAeA=='')
               (world (memState [])) = Some (Handled resp, x')
     \<and> Payload resp = [] \<and> Status resp = 409 \<and> state x' = state (world (memState []))"
proof -
  let ?r = "NewRequest ''PUT'' ''/message/xyz'' ''AAAAAAAAAAAAAAAAeA==''"
  let ?x = "world (memState [])"
  have h1: "Method ?r = ''PUT''" and h2: "prefix ''/message/'' (Path ?r)"
    and h3: "cleanPath (Path ?r) = Path ?r"
    by (simp_all add: NewRequest_def cleanPath_xyz)
  have h4: "readBody ?r (bodyLimit (cfg memServer)) = Inr ''AAAAAAAAAAAAAAAAeA==''"
    by (simp add: readBody_def bodyLimit_def mem_eval)
  have h5: "TrimSpace ''AAAAAAAAAAAAAAAAeA=='' \<noteq> []"
    by (simp add: TrimSpace_eval)
  have h6: "AttachCipher (store memServer) (TrimPrefix (Path ?r) ''/message/'')
              (TrimSpace ''AAAAAAAAAAAAAAAAeA=='') (MessageTTL (cfg memServer))
              (state ?x) = ((False, None), state ?x)"
    by (simp add: mem_eval)
  have contract: "\<forall>c p ttl m. fst (AttachCipher (store memServer) c p ttl m) = (False, None)
                   \<longrightarrow> snd (AttachCipher (store memServer) c p ttl m) = m"
    by (simp add: memServer_def New_def memStorage_def memAttach_conflict)
  from put_outcome_by_attach [OF h1 h2 h3 h4 h5 h6, of "\<lambda>k. k"] contract show ?thesis
    by auto
qed

text \<open>
  Claim C10. \<open>validBase64\<close> occurs in no handler. Every \<open>PUT\<close> on \<open>/message/{code}\<close>,
  the path in clean form, whose body can be read and is not empty once trimmed is handed
  to \<open>AttachCipher\<close>, with the trimmed body as the ciphertext, and is answered 204, 409 or
  500, never 400. Nothing is asked of the bytes, so this holds as well for a body such as
  \<open>%%%\<close>, which \<open>validBase64\<close> refuses.
\<close>

theorem put_forwards_any_nonempty_body:
  assumes "Method r = ''PUT''" and "prefix ''/message/'' (Path r)"
    and "cleanPath (Path r) = Path r"
    and "readBody r (bodyLimit (cfg s)) = Inr body" and "TrimSpace body \<noteq> []"
  shows "\<exists>resp x'. ServeHTTP rnd s r x = Some (Handled resp, x')
           \<and> state x' = snd (AttachCipher (store s) (TrimPrefix (Path r) ''/message/'')
                               (TrimSpace body) (MessageTTL (cfg s)) (state x))
           \<and> Status resp \<noteq> 400
           \<and> (Status resp = 204 \<or> Status resp = 409 \<or> Status resp = 500)"
proof -
  obtain ok err st where
    att: "AttachCipher (store s) (TrimPrefix (Path r) ''/message/'') (TrimSpace body)
            (MessageTTL (cfg s)) (state x) = ((ok, err), st)"
    by (metis surj_pair)
  from serve_put [OF assms att, of rnd] att show ?thesis
    by auto
qed

theorem put_forwards_any_nonempty_body_witness:
  "\<not> validBase64 (TrimSpace ''%%%'')
   \<and> (\<exists>resp x'. ServeHTTP (\<lambda>k. k) newTestServer (NewRequest ''PUT'' ''/message/xyz'' ''%%%'')
                    (world (mock\<lparr>attachOK := True\<rparr>)) = Some (Handled resp, x')
         \<and> Status resp = 204)"
proof -
  let ?r = "NewRequest ''PUT'' ''/message/xyz'' ''%%%''"
  let ?x = "world (mock\<lparr>attachOK := True\<rparr>)"
  have h1: "Method ?r = ''PUT''" and h2: "prefix ''/message/'' (Path ?r)"
    and h3: "cleanPath (Path ?r) = Path ?r"
    by (simp_all add: NewRequest_def cleanPath_xyz)
  have h4: "readBody ?r (bodyLimit (cfg newTestServer)) = Inr ''%%%''"
    by (simp add: readBody_def bodyLimit_def mock_eval)
  have t: "TrimSpace ''%%%'' = ''%%%''"
    by (simp add: TrimSpace_eval)
  then have h5: "TrimSpace ''%%%'' \<noteq> []"
    by simp
  have inv: "\<not> validBase64 (TrimSpace ''%%%'')"
    by (simp add: t validBase64_def base64Char_def)
  from put_forwards_any_nonempty_body [OF h1 h2 h3 h4 h5, of "\<lambda>k. k" ?x]
  obtain resp x' where served: "ServeHTTP (\<lambda>k. k) newTestServer ?r ?x = Some (Handled resp, x')"
    and "Status resp = 204 \<or> Status resp = 409 \<or> Status resp = 500"
    by blast
  moreover have "ServeHTTP (\<lambda>k. k) newTestServer ?r ?x
      = Some (Handled (Result (fst (message newTestServer NewRecorder ?r ?x))),
              snd (message newTestServer NewRecorder ?r ?x))"
    by (rule ServeHTTP_message [OF h2 h3])
  moreover have "Status (Result (fst (message newTestServer NewRecorder ?r ?x))) = 204"
    by (simp add: message_def putMessage_def readBody_def bodyLimit_def Let_def t Result_simps
          mock_eval)
  ultimately have "Status resp = 204"
    by simp
  with inv served show ?thesis
    by blast
qed

section \<open>Retrieval\<close>

lemma memGet_found_once:
  assumes "memGetAndDelete c m = ((p, True, None), m')"
  shows "\<exists>q. fst (memGetAndDelete c m') = (q, False, None)"
proof -
  from assms have "recs m' c = None"
    by (auto simp: memGetAndDelete_def split: option.splits Entry.splits)
  then show ?thesis
    by (simp add: memGetAndDelete_def lookup_def)
qed

text \<open>
  Claim C7. For a \<open>GET\<close> on \<open>/message/{code}\<close>, the path in clean form, the result of
  the one \<open>GetAndDelete\<close> call fixes the response: an error gives 500; found gives 200,
  the stored payload unchanged as the body and \<open>Content-Type: text/plain\<close>; not found
  (the storage reports an absent, an expired and a still empty record alike) gives 404.
  The three statuses differ. The handler makes no other storage call, so the store is
  left as \<open>GetAndDelete\<close> left it. Where the store keeps the contract of
  \<open>get_and_delete\<close>, that a record read as found is found no more, the record is gone
  after a 200: the same request served again is answered 404 with no body.
\<close>

theorem get_outcome_by_get_and_delete:
  fixes s :: "'s Server"
  assumes "Method r = ''GET''" and "prefix ''/message/'' (Path r)"
    and "cleanPath (Path r) = Path r"
    and "GetAndDelete (store s) (TrimPrefix (Path r) ''/message/'') (state x) = ((ct, ok, err), st)"
  shows "\<exists>resp x'. ServeHTTP rnd s r x = Some (Handled resp, x') \<and> state x' = st
           \<and> Status resp = (if err \<noteq> None then 500 else if ok then 200 else 404)
           \<and> Payload resp = (if err = None \<and> ok then ct else [])
           \<and> map_of (Headers resp) ''Content-Type''
                = (if err = None \<and> ok then Some ''text/plain'' else None)
           \<and> ((\<forall>c (m :: 's) p m'. GetAndDelete (store s) c m = ((p, True, None), m')
                   \<longrightarrow> (\<exists>q. fst (GetAndDelete (store s) c m') = (q, False, None)))
                \<and> Status resp = 200
              \<longrightarrow> (\<exists>resp2 x2. ServeHTTP rnd s r x' = Some (Handled resp2, x2)
                     \<and> Status resp2 = 404 \<and> Payload resp2 = []))"
proof -
  let ?c = "TrimPrefix (Path r) ''/message/''"
  from serve_get [OF assms, of rnd] obtain resp x' where
    served: "ServeHTTP rnd s r x = Some (Handled resp, x')" and st: "state x' = st"
    and status: "Status resp = (if err \<noteq> None then 500 else if ok then 200 else 404)"
    and body: "Payload resp = (if err = None \<and> ok then ct else [])"
    and ctype: "map_of (Headers resp) ''Content-Type''
                  = (if err = None \<and> ok then Some ''text/plain'' else None)"
    by blast
  have "\<exists>resp2 x2. ServeHTTP rnd s r x' = Some (Handled resp2, x2)
          \<and> Status resp2 = 404 \<and> Payload resp2 = []"
    if contract: "\<forall>c (m :: 's) p m'. GetAndDelete (store s) c m = ((p, True, None), m')
                   \<longrightarrow> (\<exists>q. fst (GetAndDelete (store s) c m') = (q, False, None))"
      and found: "Status resp = 200"
  proof -
    from found status have "err = None \<and> ok"
      by (auto split: if_splits)
    with assms(4) have "GetAndDelete (store s) ?c (state x) = ((ct, True, None), st)"
      by simp
    with contract obtain q where "fst (GetAndDelete (store s) ?c st) = (q, False, None)"
      by blast
    then have "GetAndDelete (store s) ?c (state x')
                 = ((q, False, None), snd (GetAndDelete (store s) ?c st))"
      using st by (metis prod.collapse)
    from serve_get [OF assms(1-3) this, of rnd] show ?thesis
      by auto
  qed
  with served st status body ctype show ?thesis
    by blast
qed

theorem get_outcome_by_get_and_delete_witness:
  "\<exists>resp x' resp2 x2.
     ServeHTTP (\<lambda>k. k) memServer (NewRequest ''GET'' ''/message/xyz'' [])
       (world (memState [(''xyz'', Attached ''abc'' 3600)])) = Some (Handled resp, x')
     \<and> Status resp = 200 \<and> Payload resp = ''abc''
     \<and> map_of (Headers resp) ''Content-Type'' = Some ''text/plain''
     \<and> ServeHTTP (\<lambda>k. k) memServer (NewRequest ''GET'' ''/message/xyz'' []) x'
         = Some (Handled resp2, x2)
     \<and> Status resp2 = 404 \<and> Payload resp2 = []"
proof -
  let ?r = "NewRequest ''GET'' ''/message/xyz'' []"
  let ?x = "world (memState [(''xyz'', Attached ''abc'' 3600)])"
  have h1: "Method ?r = ''GET''" and h2: "prefix ''/message/'' (Path ?r)"
    and h3: "cleanPath (Path ?r) = Path ?r"
    by (simp_all add: NewRequest_def cleanPath_def pathClean_def)
  have "fst (GetAndDelete (store memServer) (TrimPrefix (Path ?r) ''/message/'') (state ?x))
          = (''abc'', True, None)"
    by (simp add: TrimPrefix_def mem_eval)
  then have h4: "GetAndDelete (store memServer) (TrimPrefix (Path ?r) ''/message/'') (state ?x)
              = ((''abc'', True, None),
                 snd (GetAndDelete (store memServer) (TrimPrefix (Path ?r) ''/message/'')
                        (state ?x)))"
    by (metis prod.collapse)
  have contract: "\<forall>c m p m'. GetAndDelete (store memServer) c m = ((p, True, None), m')
                   \<longrightarrow> (\<exists>q. fst (GetAndDelete (store memServer) c m') = (q, False, None))"
    by (simp add: memServer_def New_def memStorage_def memGet_found_once)
  from get_outcome_by_get_and_delete [OF h1 h2 h3 h4, of "\<lambda>k. k"] contract show ?thesis
    by (auto split: if_splits)
qed

section \<open>The trimmed payload\<close>

lemma length_TrimLeft: "length (TrimLeft s) \<le> length s"
proof (induction s rule: TrimLeft.induct)
  case (1 s)
  show ?case
  proof (cases "spaceWidth s = 0")
    case True
    then show ?thesis by (subst TrimLeft.simps) simp
  next
    case False
    from "1" [OF False] have "length (TrimLeft (drop (spaceWidth s) s)) \<le> length s"
      by simp
    with False show ?thesis by (subst TrimLeft.simps) simp
  qed
qed

lemma length_TrimLeft_less: "0 < spaceWidth s \<Longrightarrow> length (TrimLeft s) < length s"
proof -
  assume pos: "0 < spaceWidth s"
  have "length (TrimLeft (drop (spaceWidth s) s)) \<le> length s - spaceWidth s"
    using length_TrimLeft [of "drop (spaceWidth s) s"] by simp
  moreover have "spaceWidth s \<le> length s" by (rule spaceWidth_le)
  ultimately show ?thesis
    using pos by (subst TrimLeft.simps) simp
qed

lemma length_TrimRightRev: "length (TrimRightRev s) \<le> length s"
proof (induction s rule: TrimRightRev.induct)
  case (1 s)
  show ?case
  proof (cases "spaceWidthLast s = 0")
    case True
    then show ?thesis by (subst TrimRightRev.simps) simp
  next
    case False
    from "1" [OF False] have "length (TrimRightRev (drop (spaceWidthLast s) s)) \<le> length s"
      by simp
    with False show ?thesis by (subst TrimRightRev.simps) simp
  qed
qed

lemma length_TrimRightRev_less:
  "0 < spaceWidthLast s \<Longrightarrow> length (TrimRightRev s) < length s"
proof -
  assume pos: "0 < spaceWidthLast s"
  have "length (TrimRightRev (drop (spaceWidthLast s) s)) \<le> length s - spaceWidthLast s"
    using length_TrimRightRev [of "drop (spaceWidthLast s) s"] by simp
  moreover have "spaceWidthLast s \<le> length s" by (rule spaceWidthLast_le)
  ultimately show ?thesis
    using pos by (subst TrimRightRev.simps) simp
qed

lemma TrimSpace_shorter:
  assumes "0 < spaceWidth s \<or> 0 < spaceWidthLast (rev s)"
  shows "length (TrimSpace s) < length s"
proof (cases "0 < spaceWidth s")
  case True
  have "length (TrimSpace s) \<le> length (TrimLeft s)"
    using length_TrimRightRev [of "rev (TrimLeft s)"] by (simp add: TrimSpace_def TrimRight_def)
  with length_TrimLeft_less [OF True] show ?thesis by simp
next
  case False
  then have "TrimLeft s = s" by (subst TrimLeft.simps) simp
  moreover from False assms have "0 < spaceWidthLast (rev s)" by simp
  ultimately show ?thesis
    using length_TrimRightRev_less [of "rev s"] by (simp add: TrimSpace_def TrimRight_def)
qed


lemma lookup_elapse_Attached:
  "lookup (m\<lparr>clock := clock m + int d\<rparr>) c = Some (Attached p t) \<Longrightarrow> recs m c = Some (Attached p t)"
  by (simp add: lookup_def split: option.splits if_splits)

lemma mem_round_trip:
  assumes put: "Method r = ''PUT''" "prefix ''/message/'' (Path r)"
    and clean: "cleanPath (Path r) = Path r"
    and body: "readBody r (bodyLimit (cfg s)) = Inr body" "TrimSpace body \<noteq> []"
    and mem: "store s = memStorage"
    and s1: "ServeHTTP rnd s r y = Some (Handled resp1, y1)" "Status resp1 = 204"
    and get: "Method g = ''GET''" "Path g = Path r"
    and s2: "ServeHTTP rnd s g (elapse d y1) = Some (Handled resp2, y2)" "Status resp2 = 200"
  shows "Payload resp2 = TrimSpace body"
proof -
  let ?c = "TrimPrefix (Path r) ''/message/''"
  obtain ok err st where
    att: "memAttachCipher ?c (TrimSpace body) (MessageTTL (cfg s)) (state y) = ((ok, err), st)"
    by (metis surj_pair)
  with mem have "AttachCipher (store s) ?c (TrimSpace body) (MessageTTL (cfg s)) (state y)
                   = ((ok, err), st)"
    by (simp add: memStorage_def)
  from serve_put [OF put clean body this, of rnd] s1
  have y1: "state y1 = st" and ok: "err = None \<and> ok"
    by (auto split: if_splits)
  from att ok have held: "recs st ?c = Some (Attached (TrimSpace body) (clock (state y) + MessageTTL (cfg s)))"
    by (auto simp: memAttachCipher_def split: option.splits Entry.splits)
  obtain ct ok2 err2 st2 where
    gd: "memGetAndDelete ?c (state (elapse d y1)) = ((ct, ok2, err2), st2)"
    by (metis surj_pair)
  with mem get have "GetAndDelete (store s) (TrimPrefix (Path g) ''/message/'')
                       (state (elapse d y1)) = ((ct, ok2, err2), st2)"
    by (simp add: memStorage_def)
  from serve_get [OF get(1) _ _ this, of rnd] put(2) clean get(2) s2
  have found: "err2 = None \<and> ok2" and p: "Payload resp2 = ct"
    by (auto split: if_splits)
  from gd found obtain t where "lookup (state (elapse d y1)) ?c = Some (Attached ct t)"
    by (auto simp: memGetAndDelete_def split: option.splits Entry.splits)
  then have "recs (state y1) ?c = Some (Attached ct t)"
    by (simp add: elapse_def lookup_elapse_Attached)
  with held y1 p show ?thesis by simp
qed

text \<open>
  Claim C9. What \<open>putMessage\<close> hands to \<open>AttachCipher\<close> is \<open>TrimSpace(body)\<close>, not the
  body. For a \<open>PUT\<close> on a message path in clean form and a readable body with white
  space before or after other content, the trimmed string is shorter than the body, so
  the two differ; the store after the request is the one \<open>AttachCipher\<close> leaves when
  given the trimmed string. On the in-memory store, when the \<open>PUT\<close> is answered 204 and
  the \<open>GET\<close> for the same path that is served next, after any lapse of time, is
  answered 200, the body of that answer is the trimmed string and not the body sent.
\<close>

theorem put_attaches_trimmed_body:
  assumes "Method r = ''PUT''" and "prefix ''/message/'' (Path r)"
    and "cleanPath (Path r) = Path r"
    and "readBody r (bodyLimit (cfg s)) = Inr body" and "TrimSpace body \<noteq> []"
    and "0 < spaceWidth body \<or> 0 < spaceWidthLast (rev body)"
  shows "(\<exists>resp x'. ServeHTTP rnd s r x = Some (Handled resp, x')
            \<and> state x' = snd (AttachCipher (store s) (TrimPrefix (Path r) ''/message/'')
                                (TrimSpace body) (MessageTTL (cfg s)) (state x)))
       \<and> TrimSpace body \<noteq> body
       \<and> (\<forall>g y resp1 y1 d resp2 y2.
             Method g = ''GET'' \<and> Path g = Path r
             \<and> ServeHTTP rnd (New (cfg s) memStorage (logger s)) r y = Some (Handled resp1, y1)
             \<and> Status resp1 = 204
             \<and> ServeHTTP rnd (New (cfg s) memStorage (logger s)) g (elapse d y1) = Some (Handled resp2, y2)
             \<and> Status resp2 = 200
           \<longrightarrow> Payload resp2 = TrimSpace body \<and> Payload resp2 \<noteq> body)"
proof -
  let ?m = "New (cfg s) memStorage (logger s)"
  obtain ok err st where
    att: "AttachCipher (store s) (TrimPrefix (Path r) ''/message/'') (TrimSpace body)
            (MessageTTL (cfg s)) (state x) = ((ok, err), st)"
    by (metis surj_pair)
  from serve_put [OF assms(1-5) att, of rnd] att
  have one: "\<exists>resp x'. ServeHTTP rnd s r x = Some (Handled resp, x')
            \<and> state x' = snd (AttachCipher (store s) (TrimPrefix (Path r) ''/message/'')
                                (TrimSpace body) (MessageTTL (cfg s)) (state x))"
    by auto
  from TrimSpace_shorter [OF assms(6)] have two: "TrimSpace body \<noteq> body"
    by auto
  have cfg: "cfg ?m = cfg s" and mem: "store ?m = memStorage"
    by (simp_all add: New_def)
  have three: "Payload resp2 = TrimSpace body"
    if "Method g = ''GET''" and "Path g = Path r"
      and "ServeHTTP rnd ?m r y = Some (Handled resp1, y1)" and "Status resp1 = 204"
      and "ServeHTTP rnd ?m g (elapse d y1) = Some (Handled resp2, y2)" and "Status resp2 = 200"
    for g y resp1 y1 d resp2 y2
    using mem_round_trip [of r ?m body rnd y resp1 y1 g d resp2 y2] assms(1-5) that cfg mem
    by simp
  from two three have "Payload resp2 = TrimSpace body \<and> Payload resp2 \<noteq> body"
    if "Method g = ''GET'' \<and> Path g = Path r
          \<and> ServeHTTP rnd ?m r y = Some (Handled resp1, y1) \<and> Status resp1 = 204
          \<and> ServeHTTP rnd ?m g (elapse d y1) = Some (Handled resp2, y2) \<and> Status resp2 = 200"
    for g y resp1 y1 d resp2 y2
    using that by metis
  with one two show ?thesis
    by blast
qed

theorem put_attaches_trimmed_body_witness:
  "TrimSpace ''  hello  '' = ''hello''
   \<and> (\<exists>resp x'. ServeHTTP (\<lambda>k. k) newTestServer
          (NewRequest ''PUT'' ''/message/xyz'' ''  hello  '')
          (world (mock\<lparr>attachOK := True\<rparr>)) = Some (Handled resp, x'))
   \<and> (\<exists>resp1 y1 resp2 y2.
         ServeHTTP (\<lambda>k. k) memServer
           (NewRequest ''PUT'' ''/message/xyz'' ''  hello  '')
           (world (memState [(''xyz'', Placeholder 60)])) = Some (Handled resp1, y1)
         \<and> Status resp1 = 204
         \<and> ServeHTTP (\<lambda>k. k) memServer (NewRequest ''GET'' ''/message/xyz'' []) (elapse 5 y1)
             = Some (Handled resp2, y2)
         \<and> Status resp2 = 200 \<and> Payload resp2 = ''hello'')"
proof -
  let ?body = "''  hello  ''"
  let ?put = "NewRequest ''PUT'' ''/message/xyz'' ?body"
  let ?get = "NewRequest ''GET'' ''/message/xyz'' []"
  let ?y = "world (memState [(''xyz'', Placeholder 60)])"
  have t: "TrimSpace ?body = ''hello''"
    by (simp add: TrimSpace_eval)
  have h1: "Method ?put = ''PUT''" and h2: "prefix ''/message/'' (Path ?put)"
    and g1: "Method ?get = ''GET''" and g2: "prefix ''/message/'' (Path ?get)"
    and g3: "Path ?get = Path ?put"
    and hc: "cleanPath (Path ?put) = Path ?put" and gc: "cleanPath (Path ?get) = Path ?get"
    by (simp_all add: NewRequest_def cleanPath_xyz)
  have h3: "readBody ?put (bodyLimit (cfg newTestServer)) = Inr ?body"
    by (simp add: readBody_def bodyLimit_def mock_eval)
  have h3': "readBody ?put (bodyLimit (cfg memServer)) = Inr ?body"
    by (simp add: readBody_def bodyLimit_def mem_eval)
  have h4: "TrimSpace ?body \<noteq> []"
    by (simp add: t)
  have h5: "0 < spaceWidth ?body \<or> 0 < spaceWidthLast (rev ?body)"
    by (simp add: spaceWidth_def asciiSpace_def)
  have m: "New (cfg newTestServer) memStorage (logger newTestServer) = memServer"
    by (simp add: memServer_def newTestServer_def New_def)
  have c: "TrimPrefix ''/message/xyz'' ''/message/'' = ''xyz''"
    by (simp add: TrimPrefix_def)
  have att: "AttachCipher (store memServer) (TrimPrefix (Path ?put) ''/message/'')
               (TrimSpace ?body) (MessageTTL (cfg memServer)) (state ?y)
             = ((True, None),
                (memState [(''xyz'', Placeholder 60)])
                  \<lparr>recs := (recs (memState [(''xyz'', Placeholder 60)]))
                              (''xyz'' \<mapsto> Attached ''hello'' 3600000000000)\<rparr>)"
    by (simp add: t c mem_eval)
  from serve_put [OF h1 h2 hc h3' h4 att, of "\<lambda>k. k"]
  obtain resp1 y1 where put: "ServeHTTP (\<lambda>k. k) memServer ?put ?y = Some (Handled resp1, y1)"
    and st1: "state y1 = (memState [(''xyz'', Placeholder 60)])
                  \<lparr>recs := (recs (memState [(''xyz'', Placeholder 60)]))
                              (''xyz'' \<mapsto> Attached ''hello'' 3600000000000)\<rparr>"
    and s1: "Status resp1 = 204"
    by auto
  have "fst (GetAndDelete (store memServer) (TrimPrefix (Path ?get) ''/message/'')
               (state (elapse 5 y1))) = (''hello'', True, None)"
    by (simp add: st1 c mem_eval)
  then have "GetAndDelete (store memServer) (TrimPrefix (Path ?get) ''/message/'')
               (state (elapse 5 y1))
             = ((''hello'', True, None),
                snd (GetAndDelete (store memServer) (TrimPrefix (Path ?get) ''/message/'')
                       (state (elapse 5 y1))))"
    by (metis prod.collapse)
  from serve_get [OF g1 g2 gc this, of "\<lambda>k. k"]
  obtain resp2 y2 where get: "ServeHTTP (\<lambda>k. k) memServer ?get (elapse 5 y1) = Some (Handled resp2, y2)"
    and s2: "Status resp2 = 200"
    by auto
  note inst = put_attaches_trimmed_body [OF h1 h2 hc h3 h4 h5,
      of "\<lambda>k. k" "world (mock\<lparr>attachOK := True\<rparr>)", unfolded m]
  from inst have served: "\<exists>resp x'. ServeHTTP (\<lambda>k. k) newTestServer ?put
                           (world (mock\<lparr>attachOK := True\<rparr>)) = Some (Handled resp, x')"
    by blast
  from inst g1 g3 put s1 get s2 have "Payload resp2 = TrimSpace ?body"
    by blast
  with t have "Payload resp2 = ''hello''"
    by simp
  with t served put s1 get s2 show ?thesis
    by blast
qed

section \<open>Reservation\<close>

lemma generateLoop_length: "length (fst (generateLoop rnd n b k)) = length b + n"
  by (induction n arbitrary: b k) (simp_all add: rand_Int_def Let_def)

lemma generateLoop_drawn: "snd (generateLoop rnd n b k) = k + n"
  by (induction n arbitrary: b k) (simp_all add: rand_Int_def Let_def)

lemma letters_length: "length letters = 57"
  by (simp add: letters_def)

lemma generateLoop_set:
  "set b \<subseteq> set letters \<Longrightarrow> set (fst (generateLoop rnd n b k)) \<subseteq> set letters"
proof (induction n arbitrary: b k)
  case 0
  then show ?case by simp
next
  case (Suc n)
  have "rnd k mod length letters < length letters"
    by (simp add: letters_length)
  then have "letters ! (rnd k mod length letters) \<in> set letters"
    by (rule nth_mem)
  with Suc.prems have "set (b @ [letters ! (rnd k mod length letters)]) \<subseteq> set letters"
    by simp
  from Suc.IH [OF this] show ?case
    by (simp add: rand_Int_def Let_def)
qed


lemma generateCode_facts:
  assumes "generateCode rnd 8 k0 = (c, k)"
  shows "length c = 8" and "set c \<subseteq> set letters" and "k = k0 + 8"
  using assms generateLoop_length [of rnd 8 "[]" k0] generateLoop_set [of "[]" rnd 8 k0]
    generateLoop_drawn [of rnd 8 "[]" k0]
  by (auto simp: generateCode_def)

lemma reserveLoop_step:
  assumes "generateCode rnd 8 (drawn x) = (c, k)"
    and "ReserveCode (store s) c (PlaceholderTTL (cfg s)) (state x) = ((ok, err), st)"
  shows "reserveLoop rnd s w x =
           (if err \<noteq> None then
              Some (Inl (WriteHeader 500 w),
                    logEvent s Error ''reserve_code_error'' ''code'' (x\<lparr>state := st, drawn := k\<rparr>))
            else if ok then Some (Inr c, x\<lparr>state := st, drawn := k\<rparr>)
            else reserveLoop rnd s w (x\<lparr>state := st, drawn := k\<rparr>))"
  by (subst reserveLoop.simps) (simp add: assms)

lemma reserveLoop_result:
  fixes s :: "'s Server"
  assumes "reserveLoop rnd s w x = Some (res, y)"
  shows "res = Inl (WriteHeader 500 w) \<or>
         (\<exists>x0 :: 's World. res = Inr (fst (generateCode rnd 8 (drawn x0)))
            \<and> ReserveCode (store s) (fst (generateCode rnd 8 (drawn x0)))
                 (PlaceholderTTL (cfg s)) (state x0) = ((True, None), state y))"
proof -
  let ?P = "\<lambda>(rnd::nat \<Rightarrow> nat) (s::'s Server) w (x::'s World)
              (r::(ResponseWriter + string) \<times> 's World).
     fst r = Inl (WriteHeader 500 w) \<or>
     (\<exists>x0 :: 's World. fst r = Inr (fst (generateCode rnd 8 (drawn x0)))
        \<and> ReserveCode (store s) (fst (generateCode rnd 8 (drawn x0)))
             (PlaceholderTTL (cfg s)) (state x0) = ((True, None), state (snd r)))"
  have "?P rnd s w x (res, y)"
  proof (rule reserveLoop.raw_induct
           [where P = ?P and xa = "(((rnd, s), w), x)", unfolded prod.case])
    show "reserveLoop rnd s w x = Some (res, y)" by fact
  next
    fix f and rnd :: "nat \<Rightarrow> nat" and s :: "'s Server" and w and x :: "'s World" and r
    assume IH: "\<And>rnd s w x r. f rnd s w x = Some r \<Longrightarrow> ?P rnd s w x r"
      and step: "(let (c, k) = generateCode rnd 8 (drawn x);
          ((ok, err), st) = ReserveCode (store s) c (PlaceholderTTL (cfg s)) (state x);
          x' = x\<lparr>state := st, drawn := k\<rparr>
      in if err \<noteq> None then
           Some (Inl (WriteHeader 500 w), logEvent s Error ''reserve_code_error'' ''code'' x')
         else if ok then Some (Inr c, x')
         else f rnd s w x') = Some r"
    obtain c k where g: "generateCode rnd 8 (drawn x) = (c, k)" by force
    obtain ok err st where
      rc: "ReserveCode (store s) c (PlaceholderTTL (cfg s)) (state x) = ((ok, err), st)"
      by (metis surj_pair)
    show "?P rnd s w x r"
    proof (cases "err \<noteq> None")
      case True
      with step g rc show ?thesis by auto
    next
      case noerr: False
      show ?thesis
      proof (cases ok)
        case True
        with step g rc noerr have "r = (Inr c, x\<lparr>state := st, drawn := k\<rparr>)" by simp
        moreover from g have "c = fst (generateCode rnd 8 (drawn x))" by simp
        ultimately show ?thesis using rc True noerr by auto
      next
        case False
        with step g rc noerr have "f rnd s w (x\<lparr>state := st, drawn := k\<rparr>) = Some r"
          by simp
        from IH [OF this] show ?thesis .
      qed
    qed
  qed
  then show ?thesis by simp
qed

lemma ServeHTTP_code:
  assumes "Method r = ''GET''" and "Path r = ''/code''"
  shows "ServeHTTP rnd s r x =
     (case reserveLoop rnd s (secHeaders NewRecorder) x of
        None \<Rightarrow> None
      | Some (Inl w, x') \<Rightarrow> Some (Handled (Result w), x')
      | Some (Inr c, x') \<Rightarrow>
          Some (Handled (Result (Write (encodeCode c)
                  (Header_Set ''Content-Type'' ''application/json'' (secHeaders NewRecorder)))),
                x'))"
  using assms
  by (simp add: ServeHTTP_def findHandler_code getCode_def
           split: option.splits sum.splits prod.splits)

lemma reserveLoop_collisions:
  fixes s :: "'s Server"
  assumes "\<And>c (st :: 's). fst (ReserveCode (store s) c (PlaceholderTTL (cfg s)) st) = (False, None)"
  shows "reserveLoop rnd s w x = None"
proof (rule ccontr)
  assume "reserveLoop rnd s w x \<noteq> None"
  then obtain y where some: "reserveLoop rnd s w x = Some y"
    by blast
  let ?P = "\<lambda>(rnd'::nat \<Rightarrow> nat) (s'::'s Server) (w'::ResponseWriter) (x'::'s World)
              (r::(ResponseWriter + string) \<times> 's World). s' \<noteq> s"
  have "?P rnd s w x y"
  proof (rule reserveLoop.raw_induct
           [where P = ?P and xa = "(((rnd, s), w), x)", unfolded prod.case])
    show "reserveLoop rnd s w x = Some y" by fact
  next
    fix f and rnd :: "nat \<Rightarrow> nat" and s' :: "'s Server" and w and x :: "'s World" and r
    assume IH: "\<And>rnd s' w x r. f rnd s' w x = Some r \<Longrightarrow> ?P rnd s' w x r"
      and step: "(let (c, k) = generateCode rnd 8 (drawn x);
          ((ok, err), st) = ReserveCode (store s') c (PlaceholderTTL (cfg s')) (state x);
          x' = x\<lparr>state := st, drawn := k\<rparr>
      in if err \<noteq> None then
           Some (Inl (WriteHeader 500 w), logEvent s' Error ''reserve_code_error'' ''code'' x')
         else if ok then Some (Inr c, x')
         else f rnd s' w x') = Some r"
    show "s' \<noteq> s"
    proof
      assume eq: "s' = s"
      obtain c k where g: "generateCode rnd 8 (drawn x) = (c, k)" by force
      obtain st where
        rc: "ReserveCode (store s) c (PlaceholderTTL (cfg s)) (state x) = ((False, None), st)"
        using assms [of c "state x"] by (metis prod.collapse)
      from step g rc eq have "f rnd s w (x\<lparr>state := st, drawn := k\<rparr>) = Some r"
        by simp
      from IH [OF this] show False by simp
    qed
  qed
  then show False by simp
qed

text \<open>
  Claim C8. What \<open>GET /code\<close> does, one round at a time. A round generates a candidate
  of 8 characters of the alphabet from the next 8 random numbers and calls \<open>ReserveCode\<close>
  on it with the placeholder time to live. An error ends the request with 500, the
  defensive headers and no body. Success ends it with 200 and the JSON object holding
  that candidate. A collision (false, no error) is answered by nothing: the request goes
  on as the same request from the world after the round, with the next 8 random numbers.
  So whenever the request is answered at all, the answer is the 500 after an error or a
  200 whose code is a candidate for which \<open>ReserveCode\<close> returned true without error;
  a collision never reaches the client, and under a store that reports nothing but
  collisions the request is never answered.
\<close>

theorem reservation_algorithm:
  fixes s :: "'s Server"
  assumes "Method r = ''GET''" and "Path r = ''/code''"
    and "generateCode rnd 8 (drawn x) = (c, k)"
    and "ReserveCode (store s) c (PlaceholderTTL (cfg s)) (state x) = ((ok, err), st)"
  shows "length c = 8 \<and> set c \<subseteq> set letters \<and> k = drawn x + 8
    \<and> (err \<noteq> None \<longrightarrow>
          ServeHTTP rnd s r x =
            Some (Handled \<lparr>Status = 500,
                   Headers = [(''Referrer-Policy'', ''no-referrer''), (''Cache-Control'', ''no-store''),
                              (''X-Content-Type-Options'', ''nosniff''), (''Pragma'', ''no-cache'')],
                   Payload = []\<rparr>,
                  logEvent s Error ''reserve_code_error'' ''code'' (x\<lparr>state := st, drawn := k\<rparr>)))
    \<and> (err = None \<and> ok \<longrightarrow>
          ServeHTTP rnd s r x =
            Some (Handled \<lparr>Status = 200,
                   Headers = [(''Referrer-Policy'', ''no-referrer''), (''Cache-Control'', ''no-store''),
                              (''X-Content-Type-Options'', ''nosniff''), (''Pragma'', ''no-cache''),
                              (''Content-Type'', ''application/json'')],
                   Payload = encodeCode c\<rparr>,
                  x\<lparr>state := st, drawn := k\<rparr>))
    \<and> (err = None \<and> \<not> ok \<longrightarrow>
          ServeHTTP rnd s r x = ServeHTTP rnd s r (x\<lparr>state := st, drawn := k\<rparr>))
    \<and> (\<forall>resp y. ServeHTTP rnd s r x = Some (Handled resp, y) \<longrightarrow>
          (Status resp = 500 \<and> Payload resp = []) \<or>
          (Status resp = 200 \<and>
            (\<exists>x0 :: 's World.
               Payload resp = encodeCode (fst (generateCode rnd 8 (drawn x0)))
               \<and> ReserveCode (store s) (fst (generateCode rnd 8 (drawn x0)))
                    (PlaceholderTTL (cfg s)) (state x0) = ((True, None), state y))))
    \<and> ((\<forall>c' (st' :: 's). fst (ReserveCode (store s) c' (PlaceholderTTL (cfg s)) st')
                             = (False, None))
         \<longrightarrow> ServeHTTP rnd s r x = None)"
proof -
  note step = reserveLoop_step [OF assms(3,4), of "secHeaders NewRecorder"]
  note serve = ServeHTTP_code [OF assms(1,2)]
  have a: "length c = 8 \<and> set c \<subseteq> set letters \<and> k = drawn x + 8"
    using generateCode_facts [OF assms(3)] by simp
  have b: "ServeHTTP rnd s r x =
            Some (Handled \<lparr>Status = 500,
                   Headers = [(''Referrer-Policy'', ''no-referrer''), (''Cache-Control'', ''no-store''),
                              (''X-Content-Type-Options'', ''nosniff''), (''Pragma'', ''no-cache'')],
                   Payload = []\<rparr>,
                  logEvent s Error ''reserve_code_error'' ''code'' (x\<lparr>state := st, drawn := k\<rparr>))"
    if "err \<noteq> None"
    using that by (simp add: serve step Result_simps)
  have c: "ServeHTTP rnd s r x =
            Some (Handled \<lparr>Status = 200,
                   Headers = [(''Referrer-Policy'', ''no-referrer''), (''Cache-Control'', ''no-store''),
                              (''X-Content-Type-Options'', ''nosniff''), (''Pragma'', ''no-cache''),
                              (''Content-Type'', ''application/json'')],
                   Payload = encodeCode c\<rparr>,
                  x\<lparr>state := st, drawn := k\<rparr>)"
    if "err = None \<and> ok"
    using that by (simp add: serve step Result_simps)
  have d: "ServeHTTP rnd s r x = ServeHTTP rnd s r (x\<lparr>state := st, drawn := k\<rparr>)"
    if "err = None \<and> \<not> ok"
    using that by (simp add: serve ServeHTTP_code [OF assms(1,2), of rnd s "x\<lparr>state := st, drawn := k\<rparr>"] step)
  have e: "(Status resp = 500 \<and> Payload resp = []) \<or>
          (Status resp = 200 \<and>
            (\<exists>x0 :: 's World.
               Payload resp = encodeCode (fst (generateCode rnd 8 (drawn x0)))
               \<and> ReserveCode (store s) (fst (generateCode rnd 8 (drawn x0)))
                    (PlaceholderTTL (cfg s)) (state x0) = ((True, None), state y)))"
    if served: "ServeHTTP rnd s r x = Some (Handled resp, y)" for resp y
  proof -
    from served obtain res where
      loop: "reserveLoop rnd s (secHeaders NewRecorder) x = Some (res, y)"
      and resp: "resp = (case res of Inl w \<Rightarrow> Result w
                   | Inr c \<Rightarrow> Result (Write (encodeCode c)
                       (Header_Set ''Content-Type'' ''application/json'' (secHeaders NewRecorder))))"
      by (auto simp: serve split: option.splits sum.splits prod.splits)
    from reserveLoop_result [OF loop] show ?thesis
    proof
      assume "res = Inl (WriteHeader 500 (secHeaders NewRecorder))"
      with resp show ?thesis by (simp add: Result_simps)
    next
      assume "\<exists>x0 :: 's World. res = Inr (fst (generateCode rnd 8 (drawn x0)))
            \<and> ReserveCode (store s) (fst (generateCode rnd 8 (drawn x0)))
                 (PlaceholderTTL (cfg s)) (state x0) = ((True, None), state y)"
      then obtain x0 :: "'s World" where "res = Inr (fst (generateCode rnd 8 (drawn x0)))"
        and "ReserveCode (store s) (fst (generateCode rnd 8 (drawn x0)))
                 (PlaceholderTTL (cfg s)) (state x0) = ((True, None), state y)"
        by blast
      with resp show ?thesis by (auto simp: Result_simps)
    qed
  qed
  have f: "ServeHTTP rnd s r x = None"
    if "\<forall>c' (st' :: 's). fst (ReserveCode (store s) c' (PlaceholderTTL (cfg s)) st')
                             = (False, None)"
    using reserveLoop_collisions [of s rnd "secHeaders NewRecorder" x] that
    by (simp add: serve)
  from a b c d e f show ?thesis
    by blast
qed



theorem reservation_algorithm_witness:
  "\<exists>y. ServeHTTP (\<lambda>k. k) memServer (NewRequest ''GET'' ''/code'' [])
          (world (memState [(''ABCDEFGH'', Placeholder 60)]))
        = Some (Handled \<lparr>Status = 200,
                  Headers = [(''Referrer-Policy'', ''no-referrer''), (''Cache-Control'', ''no-store''),
                             (''X-Content-Type-Options'', ''nosniff''), (''Pragma'', ''no-cache''),
                             (''Content-Type'', ''application/json'')],
                  Payload = encodeCode ''JKLMNPQR''\<rparr>, y)"
proof -
  let ?r = "NewRequest ''GET'' ''/code'' []"
  let ?x = "world (memState [(''ABCDEFGH'', Placeholder 60)])"
  let ?x' = "?x\<lparr>state := state ?x, drawn := 8\<rparr>"
  have h1: "Method ?r = ''GET''" and h2: "Path ?r = ''/code''"
    by (simp_all add: NewRequest_def)
  have "generateCode (\<lambda>k. k) 8 0 = (''ABCDEFGH'', 8)"
    by code_simp
  then have g1: "generateCode (\<lambda>k. k) 8 (drawn ?x) = (''ABCDEFGH'', 8)"
    by (simp add: world_def)
  have r1: "ReserveCode (store memServer) ''ABCDEFGH'' (PlaceholderTTL (cfg memServer)) (state ?x)
              = ((False, None), state ?x)"
    by (simp add: mem_eval)
  have "generateCode (\<lambda>k. k) 8 8 = (''JKLMNPQR'', 16)"
    by code_simp
  then have g2: "generateCode (\<lambda>k. k) 8 (drawn ?x') = (''JKLMNPQR'', 16)"
    by simp
  have "fst (ReserveCode (store memServer) ''JKLMNPQR'' (PlaceholderTTL (cfg memServer))
               (state ?x')) = (True, None)"
    by (simp add: mem_eval)
  then have r2: "ReserveCode (store memServer) ''JKLMNPQR'' (PlaceholderTTL (cfg memServer))
                   (state ?x')
                 = ((True, None),
                    snd (ReserveCode (store memServer) ''JKLMNPQR''
                           (PlaceholderTTL (cfg memServer)) (state ?x')))"
    by (metis prod.collapse)
  from reservation_algorithm [OF h1 h2 g1 r1]
  have "ServeHTTP (\<lambda>k. k) memServer ?r ?x = ServeHTTP (\<lambda>k. k) memServer ?r ?x'"
    by simp
  with reservation_algorithm [OF h1 h2 g2 r2] show ?thesis
    by simp
qed

section \<open>Retrieval is destructive\<close>

lemma lookup_absent: "recs m c = None \<Longrightarrow> lookup m c = None"
  by (simp add: lookup_def)

lemma memAttach_absent:
  "recs m c = None \<Longrightarrow> recs (snd (memAttachCipher c' p ttl m)) c = None"
  by (cases "c' = c")
     (simp_all add: memAttachCipher_def lookup_def split: option.splits Entry.splits)

lemma memGet_absent:
  "recs m c = None \<Longrightarrow> recs (snd (memGetAndDelete c' m)) c = None"
  by (simp add: memGetAndDelete_def split: option.splits Entry.splits)

lemma putMessage_state:
  "state (snd (putMessage s w q x)) = state x \<or>
   state (snd (putMessage s w q x)) =
     snd (AttachCipher (store s) (TrimPrefix (Path q) ''/message/'')
            (TrimSpace (Body q)) (MessageTTL (cfg s)) (state x))"
proof (cases "readBody q (bodyLimit (cfg s))")
  case (Inl e)
  then show ?thesis by (simp add: putMessage_def)
next
  case (Inr body)
  then have b: "body = Body q"
    by (simp add: readBody_def split: if_splits)
  show ?thesis
  proof (cases "TrimSpace body = []")
    case True
    with Inr show ?thesis by (simp add: putMessage_def)
  next
    case False
    with Inr b show ?thesis
      by (simp add: putMessage_def Let_def split: prod.splits)
  qed
qed

lemma getMessage_state:
  "state (snd (getMessage s w q x)) =
     snd (GetAndDelete (store s) (TrimPrefix (Path q) ''/message/'') (state x))"
  by (simp add: getMessage_def Let_def split: prod.splits)

lemma message_absent:
  assumes "store s = memStorage" and "recs (state x) c = None"
  shows "recs (state (snd (message s w q x))) c = None"
proof -
  have "recs (state (snd (putMessage s w q x))) c = None"
    using putMessage_state [of s w q x] assms memAttach_absent [of "state x" c]
    by (auto simp: memStorage_def)
  moreover have "recs (state (snd (getMessage s w q x))) c = None"
    using getMessage_state [of s w q x] assms memGet_absent [of "state x" c]
    by (simp add: memStorage_def)
  ultimately show ?thesis
    using assms(2) by (simp add: message_def)
qed


lemma memReserve_absent:
  assumes "recs m c = None" and "memReserveCode c' ttl m = ((ok, err), m')"
  shows "err = None" and "\<not> ok \<Longrightarrow> m' = m" and "c' \<noteq> c \<Longrightarrow> recs m' c = None"
  using assms by (auto simp: memReserveCode_def split: option.splits)

lemma encodeCode_inject: "encodeCode c = encodeCode c' \<Longrightarrow> c = c'"
  by (simp add: encodeCode_def)

text \<open>A reservation loop that ends leaves a code without record so, unless it reserves it.\<close>

lemma reserveLoop_absent:
  assumes "reserveLoop rnd s w x = Some (res, y)"
    and "store s = memStorage" and "recs (state x) c = None" and "res \<noteq> Inr c"
  shows "recs (state y) c = None"
proof -
  let ?P = "\<lambda>(rnd::nat \<Rightarrow> nat) (s::MemState Server) (w::ResponseWriter) (x::MemState World)
              (r::(ResponseWriter + string) \<times> MemState World).
     store s = memStorage \<longrightarrow> recs (state x) c = None \<longrightarrow> fst r \<noteq> Inr c
       \<longrightarrow> recs (state (snd r)) c = None"
  have "?P rnd s w x (res, y)"
  proof (rule reserveLoop.raw_induct
           [where P = ?P and xa = "(((rnd, s), w), x)", unfolded prod.case])
    show "reserveLoop rnd s w x = Some (res, y)" by fact
  next
    fix f and rnd :: "nat \<Rightarrow> nat" and s :: "MemState Server" and w
      and x :: "MemState World" and r
    assume IH: "\<And>rnd s w x r. f rnd s w x = Some r \<Longrightarrow> ?P rnd s w x r"
      and step: "(let (c, k) = generateCode rnd 8 (drawn x);
          ((ok, err), st) = ReserveCode (store s) c (PlaceholderTTL (cfg s)) (state x);
          x' = x\<lparr>state := st, drawn := k\<rparr>
      in if err \<noteq> None then
           Some (Inl (WriteHeader 500 w), logEvent s Error ''reserve_code_error'' ''code'' x')
         else if ok then Some (Inr c, x')
         else f rnd s w x') = Some r"
    show "?P rnd s w x r"
    proof (intro impI)
      assume mem: "store s = memStorage" and absent: "recs (state x) c = None"
        and other: "fst r \<noteq> Inr c"
      obtain c' k where g: "generateCode rnd 8 (drawn x) = (c', k)" by force
      obtain ok err st where
        rc: "memReserveCode c' (PlaceholderTTL (cfg s)) (state x) = ((ok, err), st)"
        by (metis surj_pair)
      with mem have rc': "ReserveCode (store s) c' (PlaceholderTTL (cfg s)) (state x)
                            = ((ok, err), st)"
        by (simp add: memStorage_def)
      note facts = memReserve_absent [OF absent rc]
      show "recs (state (snd r)) c = None"
      proof (cases ok)
        case True
        with step g rc' facts(1) have r: "r = (Inr c', x\<lparr>state := st, drawn := k\<rparr>)"
          by simp
        with other have "c' \<noteq> c" by auto
        from facts(3) [OF this] r show ?thesis by simp
      next
        case False
        with step g rc' facts(1) have "f rnd s w (x\<lparr>state := st, drawn := k\<rparr>) = Some r"
          by simp
        from IH [OF this] mem absent other facts(2) [OF False] show ?thesis
          by simp
      qed
    qed
  qed
  with assms(2-4) show ?thesis by simp
qed

lemma serve_absent:
  assumes mem: "store s = memStorage" and absent: "recs (state x) c = None"
    and served: "ServeHTTP rnd s q x = Some (a, x')" and other: "\<not> issues c (q, a)"
  shows "recs (state x') c = None"
proof (cases "findHandler q")
  case (Inr m)
  with served absent show ?thesis
    by (simp add: ServeHTTP_def)
next
  case (Inl h)
  show ?thesis
  proof (cases h)
    case HealthRoute
    with Inl served absent show ?thesis
      by (simp add: ServeHTTP_def)
  next
    case MessageRoute
    with Inl served have "x' = snd (message s NewRecorder q x)"
      by (auto simp: ServeHTTP_def split: prod.splits)
    with message_absent [OF mem absent, of NewRecorder q] show ?thesis
      by simp
  next
    case CodeRoute
    have code: "Path q = ''/code''"
    proof (rule ccontr)
      assume "Path q \<noteq> ''/code''"
      with Inl CodeRoute show False
        by (auto simp: findHandler_def Let_def matchPattern_def
                 split: if_splits option.splits)
    qed
    show ?thesis
    proof (cases "Method q = ''GET''")
      case True
      from served obtain res where
        loop: "reserveLoop rnd s (secHeaders NewRecorder) x = Some (res, x')"
        and resp: "a = Handled (case res of Inl w \<Rightarrow> Result w
                     | Inr c \<Rightarrow> Result (Write (encodeCode c)
                         (Header_Set ''Content-Type'' ''application/json''
                            (secHeaders NewRecorder))))"
        by (auto simp: ServeHTTP_code [OF True code] split: option.splits sum.splits prod.splits)
      have "res \<noteq> Inr c"
      proof
        assume "res = Inr c"
        with resp have "a = Handled (Result (Write (encodeCode c)
                         (Header_Set ''Content-Type'' ''application/json''
                            (secHeaders NewRecorder))))"
          by simp
        with code other show False
          by (simp add: issues_def Result_simps)
      qed
      from reserveLoop_absent [OF loop mem absent this] show ?thesis .
    next
      case False
      with Inl CodeRoute served absent show ?thesis
        by (auto simp: ServeHTTP_def getCode_def)
    qed
  qed
qed

lemma run_absent:
  assumes "store s = memStorage"
    and "run rnd s steps x = Some (tr, y)" and "\<not> list_ex (issues c) tr"
    and "recs (state x) c = None"
  shows "recs (state y) c = None"
  using assms(2-4)
proof (induction steps arbitrary: x tr)
  case Nil
  then show ?case by simp
next
  case (Cons e es)
  show ?case
  proof (cases e)
    case (Serve q)
    with Cons.prems(1) obtain a x1 tr1 where
      one: "ServeHTTP rnd s q x = Some (a, x1)" and rest: "run rnd s es x1 = Some (tr1, y)"
      and tr: "tr = (q, a) # tr1"
      by (auto split: option.splits)
    from tr Cons.prems(2) have "\<not> issues c (q, a)" and clean: "\<not> list_ex (issues c) tr1"
      by simp_all
    from serve_absent [OF assms(1) Cons.prems(3) one this(1)]
    have "recs (state x1) c = None" .
    from Cons.IH [OF rest clean this] show ?thesis .
  next
    case (Elapse d)
    with Cons.prems(1) have rest: "run rnd s es (elapse d x) = Some (tr, y)"
      by simp
    have "recs (state (elapse d x)) c = None"
      using Cons.prems(3) by (simp add: elapse_def)
    from Cons.IH [OF rest Cons.prems(2) this] show ?thesis .
  qed
qed

lemma handled_clean:
  assumes "Method r \<noteq> ''CONNECT''" and "ServeHTTP rnd s r x = Some (Handled a, y)"
  shows "cleanPath (Path r) = Path r"
proof (rule ccontr)
  assume "cleanPath (Path r) \<noteq> Path r"
  with assms(1) have "\<exists>m. findHandler r = Inr m"
    by (auto simp: findHandler_def Let_def)
  with assms(2) show False
    by (auto simp: ServeHTTP_def)
qed

lemma NewRequest_sel:
  "Method (NewRequest m p b) = m" "Path (NewRequest m p b) = p"
  "Body (NewRequest m p b) = b" "BodyFails (NewRequest m p b) = False"
  by (simp_all add: NewRequest_def)

lemma memServer_sel:
  "store memServer = memStorage" "cfg memServer = testConfig" "logger memServer = True"
  by (simp_all add: memServer_def New_def)

lemma cleanPath_ABCDEFGH: "cleanPath ''/message/ABCDEFGH'' = ''/message/ABCDEFGH''"
  by (simp add: cleanPath_def pathClean_def)

text \<open>
  Claim C1, as amended. On a server whose store is the in-memory store: when a \<open>GET\<close> on
  \<open>/message/{code}\<close> is answered 200, its body is the payload that was attached to the
  code, and the one \<open>GetAndDelete\<close> call that read the payload has removed the record.
  From then on, whatever requests are served and however much time passes, a \<open>GET\<close> for
  the same code is answered 404 with no body, for as long as the reservation endpoint has
  not handed out the very same code again: an attachment to the code meets no placeholder
  and is a conflict.
\<close>

theorem retrieval_is_destructive:
  assumes mem: "store s = memStorage"
    and get: "Method r = ''GET''" "prefix ''/message/'' (Path r)"
    and first: "ServeHTTP rnd s r x = Some (Handled resp, x1)" "Status resp = 200"
    and later: "run rnd s steps x1 = Some (tr, x2)"
    and fresh: "\<not> list_ex (issues (TrimPrefix (Path r) ''/message/'')) tr"
  shows "(\<exists>t. lookup (state x) (TrimPrefix (Path r) ''/message/'')
                = Some (Attached (Payload resp) t))
       \<and> recs (state x1) (TrimPrefix (Path r) ''/message/'') = None
       \<and> (\<exists>resp2 x3. ServeHTTP rnd s r x2 = Some (Handled resp2, x3)
             \<and> Status resp2 = 404 \<and> Payload resp2 = [])"
proof -
  let ?c = "TrimPrefix (Path r) ''/message/''"
  from get(1) have "Method r \<noteq> ''CONNECT''"
    by simp
  from handled_clean [OF this first(1)] have clean: "cleanPath (Path r) = Path r" .
  obtain ct ok err st where gd: "memGetAndDelete ?c (state x) = ((ct, ok, err), st)"
    by (metis surj_pair)
  with mem have gd': "GetAndDelete (store s) ?c (state x) = ((ct, ok, err), st)"
    by (simp add: memStorage_def)
  from serve_get [OF get clean gd', of rnd] first
  have st: "state x1 = st" and found: "err = None \<and> ok" and body: "Payload resp = ct"
    by (auto split: if_splits)
  from gd found have was: "\<exists>t. lookup (state x) ?c = Some (Attached ct t)"
    and gone: "recs st ?c = None"
    by (auto simp: memGetAndDelete_def split: option.splits Entry.splits)
  from gone st have "recs (state x1) ?c = None"
    by simp
  from run_absent [OF mem later fresh this] have absent: "recs (state x2) ?c = None" .
  then have "memGetAndDelete ?c (state x2) = (([], False, None), state x2)"
    by (simp add: memGetAndDelete_def lookup_absent)
  with mem have "GetAndDelete (store s) ?c (state x2) = (([], False, None), state x2)"
    by (simp add: memStorage_def)
  from serve_get [OF get clean this, of rnd]
  obtain resp2 x3 where "ServeHTTP rnd s r x2 = Some (Handled resp2, x3)"
    and "Status resp2 = 404" and "Payload resp2 = []"
    by auto
  with was gone st body show ?thesis
    by auto
qed


theorem retrieval_is_destructive_witness:
  "\<exists>resp x1 tr x2 resp2 x3.
     ServeHTTP (\<lambda>k. k) memServer (NewRequest ''GET'' ''/message/xyz'' [])
       (world (memState [(''xyz'', Attached ''hello'' 3600)])) = Some (Handled resp, x1)
     \<and> Status resp = 200 \<and> Payload resp = ''hello''
     \<and> recs (state x1) ''xyz'' = None
     \<and> run (\<lambda>k. k) memServer
          [Serve (NewRequest ''PUT'' ''/message/xyz'' ''again''), Elapse 5,
           Serve (NewRequest ''GET'' ''/code'' [])] x1 = Some (tr, x2)
     \<and> map fst tr = [NewRequest ''PUT'' ''/message/xyz'' ''again'', NewRequest ''GET'' ''/code'' []]
     \<and> ServeHTTP (\<lambda>k. k) memServer (NewRequest ''GET'' ''/message/xyz'' []) x2
         = Some (Handled resp2, x3)
     \<and> Status resp2 = 404 \<and> Payload resp2 = []"
proof -
  let ?get = "NewRequest ''GET'' ''/message/xyz'' []"
  let ?put = "NewRequest ''PUT'' ''/message/xyz'' ''again''"
  let ?code = "NewRequest ''GET'' ''/code'' []"
  let ?x = "world (memState [(''xyz'', Attached ''hello'' 3600)])"
  let ?st = "(memState [(''xyz'', Attached ''hello'' 3600)])
               \<lparr>recs := (recs (memState [(''xyz'', Attached ''hello'' 3600)]))(''xyz'' := None)\<rparr>"
  have h1: "store memServer = memStorage"
    by (simp add: memServer_def New_def)
  have h2: "Method ?get = ''GET''" and h3: "prefix ''/message/'' (Path ?get)"
    and p1: "Method ?put = ''PUT''" and p2: "prefix ''/message/'' (Path ?put)"
    and c1: "Method ?code = ''GET''" and c2: "Path ?code = ''/code''"
    and hc: "cleanPath (Path ?get) = Path ?get" and pc': "cleanPath (Path ?put) = Path ?put"
    by (simp_all add: NewRequest_def cleanPath_xyz)
  have c: "TrimPrefix (Path ?get) ''/message/'' = ''xyz''"
    by (simp add: TrimPrefix_def NewRequest_def)
  have gd: "GetAndDelete (store memServer) (TrimPrefix (Path ?get) ''/message/'') (state ?x)
              = ((''hello'', True, None), ?st)"
    by (simp add: TrimPrefix_def mem_eval)
  from serve_get [OF h2 h3 hc gd, of "\<lambda>k. k"]
  obtain resp x1 where first: "ServeHTTP (\<lambda>k. k) memServer ?get ?x = Some (Handled resp, x1)"
    and ok: "Status resp = 200" and body: "Payload resp = ''hello''"
    and st1: "state x1 = ?st" and d1: "drawn x1 = 0"
    by (auto simp: world_def)
  have p3: "readBody ?put (bodyLimit (cfg memServer)) = Inr ''again''"
    by (simp add: readBody_def bodyLimit_def mem_eval)
  have p4: "TrimSpace ''again'' \<noteq> []"
    by (simp add: TrimSpace_eval)
  have att: "AttachCipher (store memServer) (TrimPrefix (Path ?put) ''/message/'')
               (TrimSpace ''again'') (MessageTTL (cfg memServer)) (state x1)
             = ((False, None), state x1)"
    by (simp add: st1 TrimPrefix_def mem_eval)
  from serve_put [OF p1 p2 pc' p3 p4 att, of "\<lambda>k. k"]
  obtain rp xp where put: "ServeHTTP (\<lambda>k. k) memServer ?put x1 = Some (Handled rp, xp)"
    and sp: "Status rp = 409" and stp: "state xp = ?st" and dp: "drawn xp = 0"
    by (auto simp: st1 d1)
  have g: "generateCode (\<lambda>k. k) 8 0 = (''ABCDEFGH'', 8)"
    by code_simp
  then have g': "generateCode (\<lambda>k. k) 8 (drawn (elapse 5 xp)) = (''ABCDEFGH'', 8)"
    by (simp add: elapse_def dp)
  have "fst (ReserveCode (store memServer) ''ABCDEFGH'' (PlaceholderTTL (cfg memServer))
               (state (elapse 5 xp))) = (True, None)"
    by (simp add: stp mem_eval)
  then have rc: "ReserveCode (store memServer) ''ABCDEFGH'' (PlaceholderTTL (cfg memServer))
                   (state (elapse 5 xp))
                 = ((True, None),
                    snd (ReserveCode (store memServer) ''ABCDEFGH''
                           (PlaceholderTTL (cfg memServer)) (state (elapse 5 xp))))"
    by (metis prod.collapse)
  obtain rc xc where code: "ServeHTTP (\<lambda>k. k) memServer ?code (elapse 5 xp) = Some (Handled rc, xc)"
    and sc: "Status rc = 200" and pc: "Payload rc = encodeCode ''ABCDEFGH''"
    by (simp add: ServeHTTP_code [OF c1 c2] reserveLoop_step [OF g' rc] Result_simps)
  have later: "run (\<lambda>k. k) memServer [Serve ?put, Elapse 5, Serve ?code] x1
                 = Some ([(?put, Handled rp), (?code, Handled rc)], xc)"
    by (simp add: put code)
  have fresh: "\<not> list_ex (issues (TrimPrefix (Path ?get) ''/message/''))
                     [(?put, Handled rp), (?code, Handled rc)]"
    by (simp add: issues_def pc encodeCode_def NewRequest_def TrimPrefix_def)
  from retrieval_is_destructive [OF h1 h2 h3 first ok later fresh]
  obtain resp2 x3 where "recs (state x1) ''xyz'' = None"
    and "ServeHTTP (\<lambda>k. k) memServer ?get xc = Some (Handled resp2, x3)"
    and "Status resp2 = 404" and "Payload resp2 = []"
    by (auto simp: c)
  with first ok body later show ?thesis
    by (intro exI [of _ resp] exI [of _ x1] exI [of _ "[(?put, Handled rp), (?code, Handled rc)]"]
          exI [of _ xc] exI [of _ resp2] exI [of _ x3]) simp
qed

text \<open>
  The claim without that condition fails. A code whose record is gone can be reserved
  again: after the payload of \<open>ABCDEFGH\<close> has been retrieved, \<open>GET /code\<close> draws the
  same code and reserves it, a \<open>PUT\<close> attaches a payload to it, and the \<open>GET\<close> that was
  answered 200 before is answered 200 with that payload once more.
\<close>

theorem retrieval_repeats_after_reissue:
  "map_option fst
     (run (\<lambda>k. k) memServer
        [Serve (NewRequest ''GET'' ''/message/ABCDEFGH'' []),
         Serve (NewRequest ''GET'' ''/code'' []),
         Serve (NewRequest ''PUT'' ''/message/ABCDEFGH'' ''hello''),
         Serve (NewRequest ''GET'' ''/message/ABCDEFGH'' [])]
        (world (memState [(''ABCDEFGH'', Attached ''hello'' 3600)])))
   = Some
       [(NewRequest ''GET'' ''/message/ABCDEFGH'' [],
         Handled \<lparr>Status = 200,
           Headers = [(''Referrer-Policy'', ''no-referrer''), (''Cache-Control'', ''no-store''),
                      (''X-Content-Type-Options'', ''nosniff''), (''Pragma'', ''no-cache''),
                      (''Content-Type'', ''text/plain'')],
           Payload = ''hello''\<rparr>),
        (NewRequest ''GET'' ''/code'' [],
         Handled \<lparr>Status = 200,
           Headers = [(''Referrer-Policy'', ''no-referrer''), (''Cache-Control'', ''no-store''),
                      (''X-Content-Type-Options'', ''nosniff''), (''Pragma'', ''no-cache''),
                      (''Content-Type'', ''application/json'')],
           Payload = encodeCode ''ABCDEFGH''\<rparr>),
        (NewRequest ''PUT'' ''/message/ABCDEFGH'' ''hello'',
         Handled \<lparr>Status = 204,
           Headers = [(''Referrer-Policy'', ''no-referrer''), (''Cache-Control'', ''no-store''),
                      (''X-Content-Type-Options'', ''nosniff''), (''Pragma'', ''no-cache'')],
           Payload = []\<rparr>),
        (NewRequest ''GET'' ''/message/ABCDEFGH'' [],
         Handled \<lparr>Status = 200,
           Headers = [(''Referrer-Policy'', ''no-referrer''), (''Cache-Control'', ''no-store''),
                      (''X-Content-Type-Options'', ''nosniff''), (''Pragma'', ''no-cache''),
                      (''Content-Type'', ''text/plain'')],
           Payload = ''hello''\<rparr>)]"
proof -
  have g: "generateCode (\<lambda>k. k) 8 0 = (''ABCDEFGH'', 8)"
    by code_simp
  have get: "prefix ''/message/'' (Path (NewRequest ''GET'' ''/message/ABCDEFGH'' []))"
    "cleanPath (Path (NewRequest ''GET'' ''/message/ABCDEFGH'' []))
       = Path (NewRequest ''GET'' ''/message/ABCDEFGH'' [])"
    and put: "prefix ''/message/'' (Path (NewRequest ''PUT'' ''/message/ABCDEFGH'' ''hello''))"
    "cleanPath (Path (NewRequest ''PUT'' ''/message/ABCDEFGH'' ''hello''))
       = Path (NewRequest ''PUT'' ''/message/ABCDEFGH'' ''hello'')"
    and code: "Method (NewRequest ''GET'' ''/code'' []) = ''GET''"
    "Path (NewRequest ''GET'' ''/code'' []) = ''/code''"
    by (simp_all add: NewRequest_def cleanPath_ABCDEFGH)
  show ?thesis
    by (simp add: ServeHTTP_message [OF get] ServeHTTP_message [OF put] ServeHTTP_code [OF code]
          reserveLoop.simps g message_def getMessage_def putMessage_def readBody_def
          bodyLimit_def TrimPrefix_def TrimSpace_eval logEvent_def Let_def Result_simps
          NewRequest_sel memServer_sel testConfig_def memStorage_def memState_def world_def
          memReserveCode_def memAttachCipher_def memGetAndDelete_def lookup_def)
qed

section \<open>Where the handlers part from the tests\<close>

text \<open>
  Claim C2. \<open>TestPostCode201\<close> sends \<open>POST /code\<close> to a server whose store reserves
  every code and expects 201 with a \<open>Location\<close> header. \<open>getCode\<close> refuses every method
  but \<open>GET\<close>: the request is answered 405 with no header and no body, and no code is
  reserved.
\<close>

theorem post_code_is_refused:
  "ServeHTTP (\<lambda>k. k) newTestServer (NewRequest ''POST'' ''/code'' [])
     (world (mock\<lparr>reserveOK := True\<rparr>))
   = Some (Handled \<lparr>Status = 405, Headers = [], Payload = []\<rparr>,
           world (mock\<lparr>reserveOK := True\<rparr>))"
  by (simp add: ServeHTTP_def findHandler_code getCode_def NewRequest_def Result_simps)

text \<open>
  Claim C3. No handler takes a token and no response is 429: of two requests \<open>GET /code\<close>
  in a row, each reaches the store and is answered 200 with a code of its own.
  \<open>TestRateLimit\<close> expects the second of two requests to be answered 429.
\<close>

theorem second_request_is_served:
  "ServeHTTP (\<lambda>k. k) newTestServer (NewRequest ''GET'' ''/code'' [])
     (world (mock\<lparr>reserveOK := True\<rparr>))
   = Some (Handled \<lparr>Status = 200,
             Headers = [(''Referrer-Policy'', ''no-referrer''), (''Cache-Control'', ''no-store''),
                        (''X-Content-Type-Options'', ''nosniff''), (''Pragma'', ''no-cache''),
                        (''Content-Type'', ''application/json'')],
             Payload = encodeCode ''ABCDEFGH''\<rparr>,
           (world (mock\<lparr>reserveOK := True\<rparr>))\<lparr>drawn := 8\<rparr>)
   \<and> ServeHTTP (\<lambda>k. k) newTestServer (NewRequest ''GET'' ''/code'' [])
       ((world (mock\<lparr>reserveOK := True\<rparr>))\<lparr>drawn := 8\<rparr>)
     = Some (Handled \<lparr>Status = 200,
               Headers = [(''Referrer-Policy'', ''no-referrer''), (''Cache-Control'', ''no-store''),
                          (''X-Content-Type-Options'', ''nosniff''), (''Pragma'', ''no-cache''),
                          (''Content-Type'', ''application/json'')],
               Payload = encodeCode ''JKLMNPQR''\<rparr>,
             (world (mock\<lparr>reserveOK := True\<rparr>))\<lparr>drawn := 16\<rparr>)"
proof -
  let ?r = "NewRequest ''GET'' ''/code'' []"
  let ?x = "world (mock\<lparr>reserveOK := True\<rparr>)"
  have get: "Method ?r = ''GET''" "Path ?r = ''/code''"
    by (simp_all add: NewRequest_def)
  have g1: "generateCode (\<lambda>k. k) 8 0 = (''ABCDEFGH'', 8)"
    and g2: "generateCode (\<lambda>k. k) 8 8 = (''JKLMNPQR'', 16)"
    by code_simp+
  have l1: "reserveLoop (\<lambda>k. k) newTestServer (secHeaders NewRecorder) ?x
              = Some (Inr ''ABCDEFGH'', ?x\<lparr>drawn := 8\<rparr>)"
    by (subst reserveLoop.simps) (simp add: g1 mock_eval)
  have l2: "reserveLoop (\<lambda>k. k) newTestServer (secHeaders NewRecorder) (?x\<lparr>drawn := 8\<rparr>)
              = Some (Inr ''JKLMNPQR'', ?x\<lparr>drawn := 16\<rparr>)"
    by (subst reserveLoop.simps) (simp add: g2 mock_eval)
  show ?thesis
    by (simp add: ServeHTTP_code [OF get] l1 l2 Result_simps)
qed

text \<open>
  Claim C4. \<open>message\<close> answers a method other than \<open>PUT\<close> and \<open>GET\<close> before any call of
  \<open>secHeaders\<close>: \<open>DELETE /message/xyz\<close> gets 405 with no header at all. The same holds
  for the 405 of \<open>getCode\<close>, which is written before its call of \<open>secHeaders\<close>.
\<close>

theorem method_not_allowed_has_no_headers:
  "ServeHTTP (\<lambda>k. k) newTestServer (NewRequest ''DELETE'' ''/message/xyz'' []) (world mock)
   = Some (Handled \<lparr>Status = 405, Headers = [], Payload = []\<rparr>, world mock)"
proof -
  have "prefix ''/message/'' (Path (NewRequest ''DELETE'' ''/message/xyz'' []))"
    and "cleanPath (Path (NewRequest ''DELETE'' ''/message/xyz'' []))
           = Path (NewRequest ''DELETE'' ''/message/xyz'' [])"
    by (simp_all add: NewRequest_def cleanPath_xyz)
  from ServeHTTP_message [OF this] show ?thesis
    by (simp add: message_def NewRequest_def Result_simps)
qed

end
